theory Spec2Isabelle
  imports Complex_Main
begin

section \<open>Field gathering on the interpolation grid (linear and cubic shapes)\<close>

text \<open>
  The two kernels of \<^verbatim>\<open>fbpic/particles/gathering/cuda_methods.py\<close>,
  \<^verbatim>\<open>gather_field_gpu_linear\<close> and \<^verbatim>\<open>gather_field_gpu_cubic\<close>, are embedded below,
  section by section of their bodies.

  Numbers: a \<^verbatim>\<open>float64\<close> is a \<^typ>\<open>real\<close> and an \<^verbatim>\<open>int64\<close> an \<^typ>\<open>int\<close>: the arithmetic
  of the kernels is taken exactly, without rounding and without overflow.

  Arrays: the particle arrays and the output arrays are lists. The kernels are compiled
  for the GPU, where a read of a grid array is not bounds-checked: a grid is the function
  that gives, for every pair of integer indices (axial, radial), what such a read returns.
  Nothing is assumed of that function outside \<open>[0, Nz-1] \<times> [0, Nr-1]\<close>; that the indices
  stay inside this range is a statement of its own about the index computations.
\<close>

subsection \<open>Data\<close>

type_synonym grid = "int \<Rightarrow> int \<Rightarrow> complex"

text \<open>The scalar parameters \<^verbatim>\<open>invdz, zmin, Nz, invdr, rmin, Nr\<close> of both kernels.\<close>

record geometry =
  invdz :: real
  zmin :: real
  Nz :: int
  invdr :: real
  rmin :: real
  Nr :: int

text \<open>The twelve grid arrays that both kernels receive.\<close>

record fields =
  Er_m0 :: grid
  Et_m0 :: grid
  Ez_m0 :: grid
  Er_m1 :: grid
  Et_m1 :: grid
  Ez_m1 :: grid
  Br_m0 :: grid
  Bt_m0 :: grid
  Bz_m0 :: grid
  Br_m1 :: grid
  Bt_m1 :: grid
  Bz_m1 :: grid

text \<open>
  The six output arrays \<^verbatim>\<open>Ex, Ey, Ez, Bx, By, Bz\<close> (suffixed, since \<open>Ex\<close> is a constant
  of HOL).
\<close>

record outputs =
  Ex_out :: "real list"
  Ey_out :: "real list"
  Ez_out :: "real list"
  Bx_out :: "real list"
  By_out :: "real list"
  Bz_out :: "real list"

datatype error = ZeroDivisionError

text \<open>Float division: dividing by zero is an error, not a value.\<close>

definition fdiv :: "real \<Rightarrow> real \<Rightarrow> error + real" where
  "fdiv a b = (if b = 0 then Inl ZeroDivisionError else Inr (a / b))"

subsection \<open>Cylindrical conversion (both kernels)\<close>

text \<open>
  \<^verbatim>\<open>rj = math.sqrt( xj**2 + yj**2 )\<close>, then \<^verbatim>\<open>invr = 1./rj; cos = xj*invr; sin = yj*invr\<close>
  if \<^verbatim>\<open>rj != 0.\<close> and \<^verbatim>\<open>cos = 1.; sin = 0.\<close> otherwise. The result is \<open>(rj, cos, sin)\<close>.
\<close>

definition cylindrical_conversion :: "real \<Rightarrow> real \<Rightarrow> error + (real \<times> real \<times> real)" where
  "cylindrical_conversion xj yj =
     (let rj = sqrt (xj\<^sup>2 + yj\<^sup>2) in
      if rj \<noteq> 0 then
        (case fdiv 1 rj of
           Inl e \<Rightarrow> Inl e
         | Inr invr \<Rightarrow> Inr (rj, xj * invr, yj * invr))
      else Inr (rj, 1, 0))"

definition exptheta_m0 :: complex where
  "exptheta_m0 = 1"

text \<open>\<^verbatim>\<open>exptheta_m1 = cos - 1.j*sin\<close>\<close>

definition exptheta_m1 :: "real \<Rightarrow> real \<Rightarrow> complex" where
  "exptheta_m1 cos_j sin_j = complex_of_real cos_j - \<i> * complex_of_real sin_j"

text \<open>
  Position in cell units: \<^verbatim>\<open>r_cell = invdr*(rj - rmin) - 0.5\<close> and
  \<^verbatim>\<open>z_cell = invdz*(zj - zmin) - 0.5\<close>.
\<close>

definition r_cell :: "geometry \<Rightarrow> real \<Rightarrow> real" where
  "r_cell geom rj = invdr geom * (rj - rmin geom) - 1 / 2"

definition z_cell :: "geometry \<Rightarrow> real \<Rightarrow> real" where
  "z_cell geom zj = invdz geom * (zj - zmin geom) - 1 / 2"

subsection \<open>Linear kernel: weights and boundary conditions\<close>

text \<open>The local variables of the linear kernel that describe the stencil.\<close>

record linear_stencil =
  ir_lower :: int
  ir_upper :: int
  iz_lower :: int
  iz_upper :: int
  Sr_lower :: real
  Sr_upper :: real
  Sz_lower :: real
  Sz_upper :: real
  Sr_guard :: real

text \<open>
  Indices of the lower and upper cell, linear weights, and the guard weight set to zero
  (lines 106 to 117), from \<open>r_cell\<close> and \<open>z_cell\<close>.
\<close>

definition linear_weights :: "real \<Rightarrow> real \<Rightarrow> linear_stencil" where
  "linear_weights rc zc =
     (let irl = \<lfloor>rc\<rfloor>;
          iru = irl + 1;
          izl = \<lfloor>zc\<rfloor>;
          izu = izl + 1
      in \<lparr> ir_lower = irl, ir_upper = iru, iz_lower = izl, iz_upper = izu,
           Sr_lower = of_int iru - rc, Sr_upper = rc - of_int irl,
           Sz_lower = of_int izu - zc, Sz_upper = zc - of_int izl,
           Sr_guard = 0 \<rparr>)"

text \<open>
  Guard cells in lower r:
  \<^verbatim>\<open>if ir_lower < 0: Sr_guard = Sr_lower; Sr_lower = 0.; ir_lower = 0\<close>
\<close>

definition guard_lower_r :: "linear_stencil \<Rightarrow> linear_stencil" where
  "guard_lower_r s =
     (if ir_lower s < 0
      then s\<lparr> Sr_guard := Sr_lower s, Sr_lower := 0, ir_lower := 0 \<rparr>
      else s)"

text \<open>
  Absorbing in upper r:
  \<^verbatim>\<open>if ir_lower > Nr-1: ir_lower = Nr-1\<close>, then \<^verbatim>\<open>if ir_upper > Nr-1: ir_upper = Nr-1\<close>
\<close>

definition absorbing_upper_r :: "int \<Rightarrow> linear_stencil \<Rightarrow> linear_stencil" where
  "absorbing_upper_r nr s =
     (let s1 = (if ir_lower s > nr - 1 then s\<lparr> ir_lower := nr - 1 \<rparr> else s);
          s2 = (if ir_upper s1 > nr - 1 then s1\<lparr> ir_upper := nr - 1 \<rparr> else s1)
      in s2)"

text \<open>
  Periodic boundaries in z: four tests in the order of the source, each one a single
  addition or subtraction of \<open>Nz\<close>.
\<close>

definition periodic_z :: "int \<Rightarrow> linear_stencil \<Rightarrow> linear_stencil" where
  "periodic_z nz s =
     (let s1 = (if iz_lower s < 0 then s\<lparr> iz_lower := iz_lower s + nz \<rparr> else s);
          s2 = (if iz_upper s1 < 0 then s1\<lparr> iz_upper := iz_upper s1 + nz \<rparr> else s1);
          s3 = (if iz_lower s2 > nz - 1 then s2\<lparr> iz_lower := iz_lower s2 - nz \<rparr> else s2);
          s4 = (if iz_upper s3 > nz - 1 then s3\<lparr> iz_upper := iz_upper s3 - nz \<rparr> else s3)
      in s4)"

text \<open>The stencil of a particle at radius \<open>rj\<close> and axial position \<open>zj\<close> (lines 101 to 141).\<close>

definition linear_stencil_of :: "geometry \<Rightarrow> real \<Rightarrow> real \<Rightarrow> linear_stencil" where
  "linear_stencil_of geom rj zj =
     periodic_z (Nz geom)
       (absorbing_upper_r (Nr geom)
         (guard_lower_r (linear_weights (r_cell geom rj) (z_cell geom zj))))"

subsection \<open>Cubic kernel: weights and boundary conditions\<close>

text \<open>
  The local arrays \<^verbatim>\<open>ir, iz\<close> (\<^verbatim>\<open>int64\<close>) and \<^verbatim>\<open>Sr, Sz\<close> (\<^verbatim>\<open>float64\<close>) have four entries.
  \<^verbatim>\<open>ir[0] = int64(math.floor(r_cell)) - 1; ir[1] = ir[0] + 1; ...\<close>
\<close>

definition cubic_indices :: "real \<Rightarrow> int list" where
  "cubic_indices c =
     (let i0 = \<lfloor>c\<rfloor> - 1;
          i1 = i0 + 1;
          i2 = i1 + 1;
          i3 = i2 + 1
      in [i0, i1, i2, i3])"

text \<open>
  \<^verbatim>\<open>Sr[0] = -1./6. * ((r_cell-ir[0])-2)**3\<close>,
  \<^verbatim>\<open>Sr[1] = 1./6. * (3*((r_cell-ir[1])**3)-6*((r_cell-ir[1])**2)+4)\<close>,
  \<^verbatim>\<open>Sr[2] = 1./6. * (3*((ir[2]-r_cell)**3)-6*((ir[2]-r_cell)**2)+4)\<close>,
  \<^verbatim>\<open>Sr[3] = -1./6. * ((ir[3]-r_cell)-2)**3\<close>, and the same for z.
\<close>

definition cubic_weights :: "real \<Rightarrow> int list \<Rightarrow> real list" where
  "cubic_weights c ix =
     [ (- 1 / 6) * ((c - of_int (ix ! 0)) - 2) ^ 3,
       (1 / 6) * (3 * ((c - of_int (ix ! 1)) ^ 3) - 6 * ((c - of_int (ix ! 1)) ^ 2) + 4),
       (1 / 6) * (3 * ((of_int (ix ! 2) - c) ^ 3) - 6 * ((of_int (ix ! 2) - c) ^ 2) + 4),
       (- 1 / 6) * ((of_int (ix ! 3) - c) - 2) ^ 3 ]"

text \<open>
  Lower and upper periodic boundary for z: the body of the loop
  \<^verbatim>\<open>for index_z in range(4)\<close>, then the loop.
\<close>

definition periodic_z_step :: "int \<Rightarrow> nat \<Rightarrow> int list \<Rightarrow> int list" where
  "periodic_z_step nz index_z iz =
     (let iz1 = (if iz ! index_z < 0 then iz[index_z := iz ! index_z + nz] else iz);
          iz2 = (if iz1 ! index_z > nz - 1 then iz1[index_z := iz1 ! index_z - nz] else iz1)
      in iz2)"

definition periodic_z_cubic :: "int \<Rightarrow> int list \<Rightarrow> int list" where
  "periodic_z_cubic nz iz = fold (periodic_z_step nz) [0..<4] iz"

text \<open>
  Lower and upper boundary for r: the body of the loop \<^verbatim>\<open>for index_r in range(4)\<close>,
  \<^verbatim>\<open>if ir[index_r] < 0: ir[index_r] = abs(ir[index_r])-1; Sr[index_r] = (-1.)*Sr[index_r]\<close>
  followed by \<^verbatim>\<open>if ir[index_r] > Nr - 1: ir[index_r] = Nr - 1\<close>, then the loop.
\<close>

definition boundary_r_step :: "int \<Rightarrow> nat \<Rightarrow> int list \<times> real list \<Rightarrow> int list \<times> real list" where
  "boundary_r_step nr index_r st =
     (let (ir, Sr) = st;
          (ir1, Sr1) = (if ir ! index_r < 0
                        then (ir[index_r := \<bar>ir ! index_r\<bar> - 1],
                              Sr[index_r := (- 1) * Sr ! index_r])
                        else (ir, Sr));
          ir2 = (if ir1 ! index_r > nr - 1 then ir1[index_r := nr - 1] else ir1)
      in (ir2, Sr1))"

definition boundary_r_cubic :: "int \<Rightarrow> int list \<times> real list \<Rightarrow> int list \<times> real list" where
  "boundary_r_cubic nr st = fold (boundary_r_step nr) [0..<4] st"

text \<open>
  The stencil of a particle at radius \<open>rj\<close> and axial position \<open>zj\<close> (lines 277 to 316):
  \<open>(ir, iz, Sr, Sz)\<close> after both loops.
\<close>

definition cubic_stencil_of ::
  "geometry \<Rightarrow> real \<Rightarrow> real \<Rightarrow> int list \<times> int list \<times> real list \<times> real list" where
  "cubic_stencil_of geom rj zj =
     (let rc = r_cell geom rj;
          zc = z_cell geom zj;
          ir = cubic_indices rc;
          Sr = cubic_weights rc ir;
          iz = cubic_indices zc;
          Sz = cubic_weights zc iz;
          iz' = periodic_z_cubic (Nz geom) iz;
          (ir', Sr') = boundary_r_cubic (Nr geom) (ir, Sr)
      in (ir', iz', Sr', Sz))"

subsection \<open>Mode accumulators\<close>

text \<open>
  Modelled from the spec: the inline functions \<^verbatim>\<open>add_linear_gather_for_mode\<close> and
  \<^verbatim>\<open>add_cubic_gather_for_mode\<close> of \<^verbatim>\<open>inline_functions.py\<close>, which both kernels call
  and which are not part of the sources at hand. For a mode, its phase factor and the
  three grids of the radial, azimuthal and axial component, the linear accumulator adds
  to each of \<open>Fr, Ft, Fz\<close> the terms \<open>Re (phase * field[iz][ir]) * S\<close> of the four
  combinations of the lower and upper axial index with the lower and upper radial index,
  \<open>S\<close> being the product of the two weights; the guard weights \<open>S_lg\<close> and \<open>S_ug\<close> are
  received and add nothing. The arguments stand in the order of the calls in the kernels.
\<close>

definition linear_sum ::
  "complex \<Rightarrow> grid \<Rightarrow> int \<Rightarrow> int \<Rightarrow> int \<Rightarrow> int \<Rightarrow> real \<Rightarrow> real \<Rightarrow> real \<Rightarrow> real \<Rightarrow> real" where
  "linear_sum exptheta_m F_grid izl izu irl iru S_ll S_lu S_ul S_uu =
     Re (exptheta_m * F_grid izl irl) * S_ll
     + Re (exptheta_m * F_grid izl iru) * S_lu
     + Re (exptheta_m * F_grid izu irl) * S_ul
     + Re (exptheta_m * F_grid izu iru) * S_uu"

definition add_linear_gather_for_mode ::
  "nat \<Rightarrow> real \<Rightarrow> real \<Rightarrow> real \<Rightarrow> complex \<Rightarrow> grid \<Rightarrow> grid \<Rightarrow> grid
   \<Rightarrow> int \<Rightarrow> int \<Rightarrow> int \<Rightarrow> int
   \<Rightarrow> real \<Rightarrow> real \<Rightarrow> real \<Rightarrow> real \<Rightarrow> real \<Rightarrow> real
   \<Rightarrow> real \<times> real \<times> real" where
  "add_linear_gather_for_mode m Fr Ft Fz exptheta_m Fr_grid Ft_grid Fz_grid
      izl izu irl iru S_ll S_lu S_lg S_ul S_uu S_ug =
     (Fr + linear_sum exptheta_m Fr_grid izl izu irl iru S_ll S_lu S_ul S_uu,
      Ft + linear_sum exptheta_m Ft_grid izl izu irl iru S_ll S_lu S_ul S_uu,
      Fz + linear_sum exptheta_m Fz_grid izl izu irl iru S_ll S_lu S_ul S_uu)"

text \<open>
  Modelled from the spec: the cubic accumulator has the same contract, summing over the
  sixteen combinations of the four axial with the four radial stencil points, the weight
  of a term being the product of the two weights of its points.
\<close>

definition cubic_sum ::
  "complex \<Rightarrow> grid \<Rightarrow> int list \<Rightarrow> int list \<Rightarrow> real list \<Rightarrow> real list \<Rightarrow> real" where
  "cubic_sum exptheta_m F_grid ir iz Sr Sz =
     (\<Sum>index_z\<leftarrow>[0..<4]. \<Sum>index_r\<leftarrow>[0..<4].
        Re (exptheta_m * F_grid (iz ! index_z) (ir ! index_r))
          * (Sz ! index_z * Sr ! index_r))"

definition add_cubic_gather_for_mode ::
  "nat \<Rightarrow> real \<Rightarrow> real \<Rightarrow> real \<Rightarrow> complex \<Rightarrow> grid \<Rightarrow> grid \<Rightarrow> grid
   \<Rightarrow> int list \<Rightarrow> int list \<Rightarrow> real list \<Rightarrow> real list
   \<Rightarrow> real \<times> real \<times> real" where
  "add_cubic_gather_for_mode m Fr Ft Fz exptheta_m Fr_grid Ft_grid Fz_grid ir iz Sr Sz =
     (Fr + cubic_sum exptheta_m Fr_grid ir iz Sr Sz,
      Ft + cubic_sum exptheta_m Ft_grid ir iz Sr Sz,
      Fz + cubic_sum exptheta_m Fz_grid ir iz Sr Sz)"

subsection \<open>Gathering one field in cylindrical components\<close>

text \<open>
  The grids of one field, in the order radial, azimuthal, axial of mode 0, then of mode 1.
\<close>

type_synonym mode_grids = "grid \<times> grid \<times> grid \<times> grid \<times> grid \<times> grid"

definition E_grids :: "fields \<Rightarrow> mode_grids" where
  "E_grids flds =
     (Er_m0 flds, Et_m0 flds, Ez_m0 flds, Er_m1 flds, Et_m1 flds, Ez_m1 flds)"

definition B_grids :: "fields \<Rightarrow> mode_grids" where
  "B_grids flds =
     (Br_m0 flds, Bt_m0 flds, Bz_m0 flds, Br_m1 flds, Bt_m1 flds, Bz_m1 flds)"

text \<open>
  Linear kernel: the shapes \<open>S_ll, ..., S_ug\<close>, then \<open>Fr = Ft = Fz = 0\<close>, the contribution
  of mode 0 and the contribution of mode 1. The kernel runs this block once on the
  E grids and once on the B grids. The result is \<open>(Fr, Ft, Fz)\<close>.
\<close>

definition linear_gather_modes ::
  "real \<Rightarrow> real \<Rightarrow> mode_grids \<Rightarrow> linear_stencil \<Rightarrow> real \<times> real \<times> real" where
  "linear_gather_modes cos_j sin_j grids st =
     (let (Fr_m0, Ft_m0, Fz_m0, Fr_m1, Ft_m1, Fz_m1) = grids;
          S_ll = Sz_lower st * Sr_lower st;
          S_lu = Sz_lower st * Sr_upper st;
          S_ul = Sz_upper st * Sr_lower st;
          S_uu = Sz_upper st * Sr_upper st;
          S_lg = Sz_lower st * Sr_guard st;
          S_ug = Sz_upper st * Sr_guard st;
          (Fr, Ft, Fz) = (0, 0, 0);
          (Fr, Ft, Fz) = add_linear_gather_for_mode 0
             Fr Ft Fz exptheta_m0 Fr_m0 Ft_m0 Fz_m0
             (iz_lower st) (iz_upper st) (ir_lower st) (ir_upper st)
             S_ll S_lu S_lg S_ul S_uu S_ug;
          (Fr, Ft, Fz) = add_linear_gather_for_mode 1
             Fr Ft Fz (exptheta_m1 cos_j sin_j) Fr_m1 Ft_m1 Fz_m1
             (iz_lower st) (iz_upper st) (ir_lower st) (ir_upper st)
             S_ll S_lu S_lg S_ul S_uu S_ug
      in (Fr, Ft, Fz))"

text \<open>Cubic kernel: the same block on the four-point stencil \<open>(ir, iz, Sr, Sz)\<close>.\<close>

definition cubic_gather_modes ::
  "real \<Rightarrow> real \<Rightarrow> mode_grids
   \<Rightarrow> int list \<times> int list \<times> real list \<times> real list \<Rightarrow> real \<times> real \<times> real" where
  "cubic_gather_modes cos_j sin_j grids st =
     (let (Fr_m0, Ft_m0, Fz_m0, Fr_m1, Ft_m1, Fz_m1) = grids;
          (ir, iz, Sr, Sz) = st;
          (Fr, Ft, Fz) = (0, 0, 0);
          (Fr, Ft, Fz) = add_cubic_gather_for_mode 0
             Fr Ft Fz exptheta_m0 Fr_m0 Ft_m0 Fz_m0 ir iz Sr Sz;
          (Fr, Ft, Fz) = add_cubic_gather_for_mode 1
             Fr Ft Fz (exptheta_m1 cos_j sin_j) Fr_m1 Ft_m1 Fz_m1 ir iz Sr Sz
      in (Fr, Ft, Fz))"

subsection \<open>The kernels\<close>

text \<open>
  One thread \<open>i\<close> of \<^verbatim>\<open>gather_field_gpu_linear\<close>: nothing is done unless
  \<^verbatim>\<open>i < x.shape[0]\<close>; otherwise the particle's fields are gathered and written at
  index \<open>i\<close> of the six output arrays (\<^verbatim>\<open>Ex[i] = cos*Fr - sin*Ft\<close>,
  \<^verbatim>\<open>Ey[i] = sin*Fr + cos*Ft\<close>, \<^verbatim>\<open>Ez[i] = Fz\<close>, and the same for B).
\<close>

definition gather_field_gpu_linear ::
  "nat \<Rightarrow> real list \<Rightarrow> real list \<Rightarrow> real list \<Rightarrow> geometry \<Rightarrow> fields
   \<Rightarrow> outputs \<Rightarrow> error + outputs" where
  "gather_field_gpu_linear i x y z geom flds out =
     (if i < length x then
        (let xj = x ! i; yj = y ! i; zj = z ! i in
         case cylindrical_conversion xj yj of
           Inl e \<Rightarrow> Inl e
         | Inr (rj, cos_j, sin_j) \<Rightarrow>
             (let st = linear_stencil_of geom rj zj;
                  (Fr, Ft, Fz) = linear_gather_modes cos_j sin_j (E_grids flds) st;
                  out1 = out\<lparr> Ex_out := (Ex_out out)[i := cos_j * Fr - sin_j * Ft],
                              Ey_out := (Ey_out out)[i := sin_j * Fr + cos_j * Ft],
                              Ez_out := (Ez_out out)[i := Fz] \<rparr>;
                  (Fr, Ft, Fz) = linear_gather_modes cos_j sin_j (B_grids flds) st;
                  out2 = out1\<lparr> Bx_out := (Bx_out out1)[i := cos_j * Fr - sin_j * Ft],
                               By_out := (By_out out1)[i := sin_j * Fr + cos_j * Ft],
                               Bz_out := (Bz_out out1)[i := Fz] \<rparr>
              in Inr out2))
      else Inr out)"

text \<open>One thread \<open>i\<close> of \<^verbatim>\<open>gather_field_gpu_cubic\<close>.\<close>

definition gather_field_gpu_cubic ::
  "nat \<Rightarrow> real list \<Rightarrow> real list \<Rightarrow> real list \<Rightarrow> geometry \<Rightarrow> fields
   \<Rightarrow> outputs \<Rightarrow> error + outputs" where
  "gather_field_gpu_cubic i x y z geom flds out =
     (if i < length x then
        (let xj = x ! i; yj = y ! i; zj = z ! i in
         case cylindrical_conversion xj yj of
           Inl e \<Rightarrow> Inl e
         | Inr (rj, cos_j, sin_j) \<Rightarrow>
             (let st = cubic_stencil_of geom rj zj;
                  (Fr, Ft, Fz) = cubic_gather_modes cos_j sin_j (E_grids flds) st;
                  out1 = out\<lparr> Ex_out := (Ex_out out)[i := cos_j * Fr - sin_j * Ft],
                              Ey_out := (Ey_out out)[i := sin_j * Fr + cos_j * Ft],
                              Ez_out := (Ez_out out)[i := Fz] \<rparr>;
                  (Fr, Ft, Fz) = cubic_gather_modes cos_j sin_j (B_grids flds) st;
                  out2 = out1\<lparr> Bx_out := (Bx_out out1)[i := cos_j * Fr - sin_j * Ft],
                               By_out := (By_out out1)[i := sin_j * Fr + cos_j * Ft],
                               Bz_out := (Bz_out out1)[i := Fz] \<rparr>
              in Inr out2))
      else Inr out)"

text \<open>
  A launch runs the kernel for the thread indices of the CUDA grid. The threads share
  the output arrays and nothing else; they are run here one after the other, an error of
  one of them ending the launch.
\<close>

fun run_threads ::
  "(nat \<Rightarrow> outputs \<Rightarrow> error + outputs) \<Rightarrow> nat list \<Rightarrow> outputs \<Rightarrow> error + outputs" where
  "run_threads body [] out = Inr out"
| "run_threads body (i # threads) out =
     (case body i out of
        Inl e \<Rightarrow> Inl e
      | Inr out' \<Rightarrow> run_threads body threads out')"

definition launch_linear ::
  "nat \<Rightarrow> real list \<Rightarrow> real list \<Rightarrow> real list \<Rightarrow> geometry \<Rightarrow> fields
   \<Rightarrow> outputs \<Rightarrow> error + outputs" where
  "launch_linear n x y z geom flds out =
     run_threads (\<lambda>i. gather_field_gpu_linear i x y z geom flds) [0..<n] out"

definition launch_cubic ::
  "nat \<Rightarrow> real list \<Rightarrow> real list \<Rightarrow> real list \<Rightarrow> geometry \<Rightarrow> fields
   \<Rightarrow> outputs \<Rightarrow> error + outputs" where
  "launch_cubic n x y z geom flds out =
     run_threads (\<lambda>i. gather_field_gpu_cubic i x y z geom flds) [0..<n] out"

section \<open>Auxiliary notions\<close>

text \<open>
  The definitions of this section are not parts of the kernels: they name what the proofs
  below talk about, and each is tied to the kernels by a lemma.
\<close>

text \<open>
  What one turn of the periodic loop makes of the entry it treats: the two tests of the
  source, in their order, on one index.
\<close>

definition wrap_once :: "int \<Rightarrow> int \<Rightarrow> int" where
  "wrap_once nz v =
     (let v1 = (if v < 0 then v + nz else v) in if v1 > nz - 1 then v1 - nz else v1)"

text \<open>
  What one turn of the radial loop makes of the index it treats: the reflection, then the
  clamp.
\<close>

definition reflect_clamp :: "int \<Rightarrow> int \<Rightarrow> int" where
  "reflect_clamp nr v =
     (let v1 = (if v < 0 then \<bar>v\<bar> - 1 else v) in if v1 > nr - 1 then nr - 1 else v1)"

text \<open>
  The triple \<open>(rj, cos, sin)\<close> of the cylindrical conversion, as a total function.
\<close>

definition polar :: "real \<Rightarrow> real \<Rightarrow> real \<times> real \<times> real" where
  "polar xj yj =
     (let rj = sqrt (xj\<^sup>2 + yj\<^sup>2)
      in (rj, if rj \<noteq> 0 then xj * (1 / rj) else 1, if rj \<noteq> 0 then yj * (1 / rj) else 0))"

text \<open>
  The six writes of a thread at index \<open>i\<close>, from the cosine, the sine and the cylindrical
  components gathered for E and for B.
\<close>

definition write_sample ::
  "nat \<Rightarrow> real \<Rightarrow> real \<Rightarrow> real \<times> real \<times> real \<Rightarrow> real \<times> real \<times> real \<Rightarrow> outputs \<Rightarrow> outputs" where
  "write_sample i c s F G out =
     (case F of (Fr, Ft, Fz) \<Rightarrow> case G of (Gr, Gt, Gz) \<Rightarrow>
        out\<lparr> Ex_out := (Ex_out out)[i := c * Fr - s * Ft],
             Ey_out := (Ey_out out)[i := s * Fr + c * Ft],
             Ez_out := (Ez_out out)[i := Fz],
             Bx_out := (Bx_out out)[i := c * Gr - s * Gt],
             By_out := (By_out out)[i := s * Gr + c * Gt],
             Bz_out := (Bz_out out)[i := Gz] \<rparr>)"

text \<open>
  All six output arrays have \<open>n\<close> entries.
\<close>

definition well_sized :: "nat \<Rightarrow> outputs \<Rightarrow> bool" where
  "well_sized n out =
     (length (Ex_out out) = n \<and> length (Ey_out out) = n \<and> length (Ez_out out) = n
      \<and> length (Bx_out out) = n \<and> length (By_out out) = n \<and> length (Bz_out out) = n)"

text \<open>
  A grid of four by four cells of unit size with its corner at the origin, for the
  examples.
\<close>

definition box :: geometry where
  "box = \<lparr> invdz = 1, zmin = 0, Nz = 4, invdr = 1, rmin = 0, Nr = 4 \<rparr>"

text \<open>
  Grids and fields for the examples: the radial field of mode 0 of E, and the azimuthal
  field of mode 0 of B, have the value \<open>ir\<close> at the radial index \<open>ir\<close>; every other grid
  is 0. The output arrays of one particle, initially 0.
\<close>

definition radial_ramp :: grid where
  "radial_ramp iz ir = of_int ir"

definition zero_grid :: grid where
  "zero_grid iz ir = 0"

definition ramp_fields :: fields where
  "ramp_fields =
     \<lparr> Er_m0 = radial_ramp, Et_m0 = zero_grid, Ez_m0 = zero_grid,
       Er_m1 = zero_grid, Et_m1 = zero_grid, Ez_m1 = zero_grid,
       Br_m0 = zero_grid, Bt_m0 = radial_ramp, Bz_m0 = zero_grid,
       Br_m1 = zero_grid, Bt_m1 = zero_grid, Bz_m1 = zero_grid \<rparr>"

definition out0 :: outputs where
  "out0 = \<lparr> Ex_out = [0], Ey_out = [0], Ez_out = [0],
            Bx_out = [0], By_out = [0], Bz_out = [0] \<rparr>"

text \<open>
  The six values that the output arrays hold for the particle of index \<open>i\<close>.
\<close>

definition sample_at :: "nat \<Rightarrow> outputs \<Rightarrow> real \<times> real \<times> real \<times> real \<times> real \<times> real" where
  "sample_at i out =
     (Ex_out out ! i, Ey_out out ! i, Ez_out out ! i, Bx_out out ! i, By_out out ! i, Bz_out out ! i)"

text \<open>
  What the linear kernel writes for a particle at \<open>(xj, yj, zj)\<close>, as a function of the
  position, the geometry and the grids alone.
\<close>

definition linear_sample ::
  "geometry \<Rightarrow> fields \<Rightarrow> real \<Rightarrow> real \<Rightarrow> real \<Rightarrow> real \<times> real \<times> real \<times> real \<times> real \<times> real" where
  "linear_sample geom flds xj yj zj =
     (case polar xj yj of (rj, c, s) \<Rightarrow>
      case linear_gather_modes c s (E_grids flds) (linear_stencil_of geom rj zj) of (Er, Et, Ez) \<Rightarrow>
      case linear_gather_modes c s (B_grids flds) (linear_stencil_of geom rj zj) of (Br, Bt, Bz) \<Rightarrow>
        (c * Er - s * Et, s * Er + c * Et, Ez, c * Br - s * Bt, s * Br + c * Bt, Bz))"

text \<open>
  The same for the cubic kernel.
\<close>

definition cubic_sample ::
  "geometry \<Rightarrow> fields \<Rightarrow> real \<Rightarrow> real \<Rightarrow> real \<Rightarrow> real \<times> real \<times> real \<times> real \<times> real \<times> real" where
  "cubic_sample geom flds xj yj zj =
     (case polar xj yj of (rj, c, s) \<Rightarrow>
      case cubic_gather_modes c s (E_grids flds) (cubic_stencil_of geom rj zj) of (Er, Et, Ez) \<Rightarrow>
      case cubic_gather_modes c s (B_grids flds) (cubic_stencil_of geom rj zj) of (Br, Bt, Bz) \<Rightarrow>
        (c * Er - s * Et, s * Er + c * Et, Ez, c * Br - s * Bt, s * Br + c * Bt, Bz))"

text \<open>
  Output arrays of \<open>n\<close> entries, initially 0, for the examples.
\<close>

definition zero_outputs :: "nat \<Rightarrow> outputs" where
  "zero_outputs n =
     \<lparr> Ex_out = replicate n 0, Ey_out = replicate n 0, Ez_out = replicate n 0,
       Bx_out = replicate n 0, By_out = replicate n 0, Bz_out = replicate n 0 \<rparr>"

section \<open>The steps of the kernels, in closed form\<close>

lemma upt_0_4: "[0..<4] = [0, 1, 2, 3]"
  by code_simp

lemma length_four: "length xs = 4 \<Longrightarrow> \<exists>a b c d. xs = [a, b, c, d]"
  by (auto simp: length_Suc_conv eval_nat_numeral)

lemma less_four: "k < 4 \<Longrightarrow> k = 0 \<or> k = 1 \<or> k = 2 \<or> k = (3::nat)"
  by arith

lemma periodic_z_step_eq:
  "k < length iz \<Longrightarrow> periodic_z_step nz k iz = iz[k := wrap_once nz (iz ! k)]"
  by (simp add: periodic_z_step_def wrap_once_def Let_def)

lemma boundary_r_step_eq:
  "k < length ir \<Longrightarrow>
   boundary_r_step nr k (ir, Sr) =
     (ir[k := reflect_clamp nr (ir ! k)], Sr[k := (if ir ! k < 0 then - Sr ! k else Sr ! k)])"
  by (simp add: boundary_r_step_def reflect_clamp_def Let_def)

lemma periodic_z_cubic_four:
  "periodic_z_cubic nz [a, b, c, d] =
     [wrap_once nz a, wrap_once nz b, wrap_once nz c, wrap_once nz d]"
  by (simp add: periodic_z_cubic_def upt_0_4 periodic_z_step_eq)

lemma boundary_r_cubic_four:
  "boundary_r_cubic nr ([a, b, c, d], [p, q, r, s]) =
     ([reflect_clamp nr a, reflect_clamp nr b, reflect_clamp nr c, reflect_clamp nr d],
      [if a < 0 then - p else p, if b < 0 then - q else q,
       if c < 0 then - r else r, if d < 0 then - s else s])"
  by (simp add: boundary_r_cubic_def upt_0_4 boundary_r_step_eq)

lemma reflect_clamp_range: "1 \<le> nr \<Longrightarrow> 0 \<le> reflect_clamp nr v \<and> reflect_clamp nr v \<le> nr - 1"
  by (simp add: reflect_clamp_def Let_def)

lemma wrap_once_range:
  "1 \<le> nz \<Longrightarrow> (0 \<le> wrap_once nz v \<and> wrap_once nz v \<le> nz - 1) = (- nz \<le> v \<and> v \<le> 2 * nz - 1)"
  by (auto simp add: wrap_once_def Let_def)

lemma cylindrical_conversion_eq: "cylindrical_conversion xj yj = Inr (polar xj yj)"
  by (simp add: cylindrical_conversion_def polar_def fdiv_def Let_def)

lemma gather_field_gpu_linear_eq:
  assumes "i < length x" and "polar (x ! i) (y ! i) = (rj, c, s)"
  shows "gather_field_gpu_linear i x y z geom flds out =
           Inr (write_sample i c s
                  (linear_gather_modes c s (E_grids flds) (linear_stencil_of geom rj (z ! i)))
                  (linear_gather_modes c s (B_grids flds) (linear_stencil_of geom rj (z ! i)))
                  out)"
  using assms
  by (simp add: gather_field_gpu_linear_def cylindrical_conversion_eq write_sample_def Let_def
      split: prod.splits)

lemma gather_field_gpu_cubic_eq:
  assumes "i < length x" and "polar (x ! i) (y ! i) = (rj, c, s)"
  shows "gather_field_gpu_cubic i x y z geom flds out =
           Inr (write_sample i c s
                  (cubic_gather_modes c s (E_grids flds) (cubic_stencil_of geom rj (z ! i)))
                  (cubic_gather_modes c s (B_grids flds) (cubic_stencil_of geom rj (z ! i)))
                  out)"
  using assms
  by (simp add: gather_field_gpu_cubic_def cylindrical_conversion_eq write_sample_def Let_def
      split: prod.splits)

lemma linear_weights_sel:
  "ir_lower (linear_weights rc zc) = \<lfloor>rc\<rfloor>"
  "ir_upper (linear_weights rc zc) = \<lfloor>rc\<rfloor> + 1"
  "iz_lower (linear_weights rc zc) = \<lfloor>zc\<rfloor>"
  "iz_upper (linear_weights rc zc) = \<lfloor>zc\<rfloor> + 1"
  "Sr_lower (linear_weights rc zc) = of_int (\<lfloor>rc\<rfloor> + 1) - rc"
  "Sr_upper (linear_weights rc zc) = rc - of_int \<lfloor>rc\<rfloor>"
  "Sz_lower (linear_weights rc zc) = of_int (\<lfloor>zc\<rfloor> + 1) - zc"
  "Sz_upper (linear_weights rc zc) = zc - of_int \<lfloor>zc\<rfloor>"
  "Sr_guard (linear_weights rc zc) = 0"
  by (simp_all add: linear_weights_def Let_def)

lemma guard_lower_r_sel:
  "ir_lower (guard_lower_r s) = (if ir_lower s < 0 then 0 else ir_lower s)"
  "ir_upper (guard_lower_r s) = ir_upper s"
  "iz_lower (guard_lower_r s) = iz_lower s"
  "iz_upper (guard_lower_r s) = iz_upper s"
  "Sr_lower (guard_lower_r s) = (if ir_lower s < 0 then 0 else Sr_lower s)"
  "Sr_upper (guard_lower_r s) = Sr_upper s"
  "Sz_lower (guard_lower_r s) = Sz_lower s"
  "Sz_upper (guard_lower_r s) = Sz_upper s"
  "Sr_guard (guard_lower_r s) = (if ir_lower s < 0 then Sr_lower s else Sr_guard s)"
  by (simp_all add: guard_lower_r_def)

lemma absorbing_upper_r_sel:
  "ir_lower (absorbing_upper_r nr s) = (if ir_lower s > nr - 1 then nr - 1 else ir_lower s)"
  "ir_upper (absorbing_upper_r nr s) = (if ir_upper s > nr - 1 then nr - 1 else ir_upper s)"
  "iz_lower (absorbing_upper_r nr s) = iz_lower s"
  "iz_upper (absorbing_upper_r nr s) = iz_upper s"
  "Sr_lower (absorbing_upper_r nr s) = Sr_lower s"
  "Sr_upper (absorbing_upper_r nr s) = Sr_upper s"
  "Sz_lower (absorbing_upper_r nr s) = Sz_lower s"
  "Sz_upper (absorbing_upper_r nr s) = Sz_upper s"
  "Sr_guard (absorbing_upper_r nr s) = Sr_guard s"
  by (simp_all add: absorbing_upper_r_def Let_def)

lemma periodic_z_sel:
  "ir_lower (periodic_z nz s) = ir_lower s"
  "ir_upper (periodic_z nz s) = ir_upper s"
  "iz_lower (periodic_z nz s) = wrap_once nz (iz_lower s)"
  "iz_upper (periodic_z nz s) = wrap_once nz (iz_upper s)"
  "Sr_lower (periodic_z nz s) = Sr_lower s"
  "Sr_upper (periodic_z nz s) = Sr_upper s"
  "Sz_lower (periodic_z nz s) = Sz_lower s"
  "Sz_upper (periodic_z nz s) = Sz_upper s"
  "Sr_guard (periodic_z nz s) = Sr_guard s"
  by (simp_all add: periodic_z_def wrap_once_def Let_def)

lemma linear_stencil_of_sel:
  "ir_lower (linear_stencil_of geom rj zj) =
     (let v = (if \<lfloor>r_cell geom rj\<rfloor> < 0 then 0 else \<lfloor>r_cell geom rj\<rfloor>)
      in if v > Nr geom - 1 then Nr geom - 1 else v)"
  "ir_upper (linear_stencil_of geom rj zj) =
     (if \<lfloor>r_cell geom rj\<rfloor> + 1 > Nr geom - 1 then Nr geom - 1 else \<lfloor>r_cell geom rj\<rfloor> + 1)"
  "iz_lower (linear_stencil_of geom rj zj) = wrap_once (Nz geom) \<lfloor>z_cell geom zj\<rfloor>"
  "iz_upper (linear_stencil_of geom rj zj) = wrap_once (Nz geom) (\<lfloor>z_cell geom zj\<rfloor> + 1)"
  "Sr_lower (linear_stencil_of geom rj zj) =
     (if \<lfloor>r_cell geom rj\<rfloor> < 0 then 0 else of_int (\<lfloor>r_cell geom rj\<rfloor> + 1) - r_cell geom rj)"
  "Sr_upper (linear_stencil_of geom rj zj) = r_cell geom rj - of_int \<lfloor>r_cell geom rj\<rfloor>"
  "Sz_lower (linear_stencil_of geom rj zj) = of_int (\<lfloor>z_cell geom zj\<rfloor> + 1) - z_cell geom zj"
  "Sz_upper (linear_stencil_of geom rj zj) = z_cell geom zj - of_int \<lfloor>z_cell geom zj\<rfloor>"
  "Sr_guard (linear_stencil_of geom rj zj) =
     (if \<lfloor>r_cell geom rj\<rfloor> < 0 then of_int (\<lfloor>r_cell geom rj\<rfloor> + 1) - r_cell geom rj else 0)"
  by (simp_all only: linear_stencil_of_def periodic_z_sel absorbing_upper_r_sel
      guard_lower_r_sel linear_weights_sel Let_def)

lemma box_sel:
  "invdz box = 1" "zmin box = 0" "Nz box = 4" "invdr box = 1" "rmin box = 0" "Nr box = 4"
  by (simp_all add: box_def)

lemma cubic_stencil_of_eq:
  "cubic_stencil_of geom rj zj =
     (map (reflect_clamp (Nr geom)) (cubic_indices (r_cell geom rj)),
      map (wrap_once (Nz geom)) (cubic_indices (z_cell geom zj)),
      map2 (\<lambda>k w. if k < 0 then - w else w) (cubic_indices (r_cell geom rj))
        (cubic_weights (r_cell geom rj) (cubic_indices (r_cell geom rj))),
      cubic_weights (z_cell geom zj) (cubic_indices (z_cell geom zj)))"
  by (simp add: cubic_stencil_of_def cubic_indices_def cubic_weights_def Let_def
      periodic_z_cubic_four boundary_r_cubic_four)

lemma cubic_indices_nth:
  "k < 4 \<Longrightarrow> cubic_indices c ! k = \<lfloor>c\<rfloor> - 1 + int k"
  by (auto dest!: less_four simp: cubic_indices_def Let_def)

lemma length_cubic_indices: "length (cubic_indices c) = 4"
  by (simp add: cubic_indices_def Let_def)

lemma boundary_r_cubic_nth:
  assumes "length ir = 4" and "length Sr = 4" and "k < 4"
  shows "fst (boundary_r_cubic nr (ir, Sr)) ! k = reflect_clamp nr (ir ! k)"
    and "snd (boundary_r_cubic nr (ir, Sr)) ! k = (if ir ! k < 0 then - (Sr ! k) else Sr ! k)"
proof -
  obtain a b c d where ir: "ir = [a, b, c, d]"
    using length_four [OF assms(1)] by blast
  obtain p q r s where Sr: "Sr = [p, q, r, s]"
    using length_four [OF assms(2)] by blast
  consider "k = 0" | "k = 1" | "k = 2" | "k = 3"
    using less_four [OF assms(3)] by blast
  then show "fst (boundary_r_cubic nr (ir, Sr)) ! k = reflect_clamp nr (ir ! k)"
    by cases (simp_all add: ir Sr boundary_r_cubic_four)
  consider "k = 0" | "k = 1" | "k = 2" | "k = 3"
    using less_four [OF assms(3)] by blast
  then show "snd (boundary_r_cubic nr (ir, Sr)) ! k = (if ir ! k < 0 then - (Sr ! k) else Sr ! k)"
    by cases (simp_all add: ir Sr boundary_r_cubic_four)
qed

lemma wrap_once_in_range:
  "- nz \<le> v \<Longrightarrow> v \<le> 2 * nz - 1 \<Longrightarrow> 0 \<le> wrap_once nz v \<and> wrap_once nz v \<le> nz - 1"
  by (simp add: wrap_once_def Let_def)

lemma cubic_stencil_of_nth:
  assumes "k < 4"
  shows "fst (cubic_stencil_of geom rj zj) ! k
           = reflect_clamp (Nr geom) (\<lfloor>r_cell geom rj\<rfloor> - 1 + int k)"
    and "fst (snd (cubic_stencil_of geom rj zj)) ! k
           = wrap_once (Nz geom) (\<lfloor>z_cell geom zj\<rfloor> - 1 + int k)"
  using assms
  by (simp_all add: cubic_stencil_of_eq length_cubic_indices cubic_indices_nth)

lemma write_sample_sel:
  "Ex_out (write_sample i c s (Fr, Ft, Fz) (Gr, Gt, Gz) out) = (Ex_out out)[i := c * Fr - s * Ft]"
  "Ey_out (write_sample i c s (Fr, Ft, Fz) (Gr, Gt, Gz) out) = (Ey_out out)[i := s * Fr + c * Ft]"
  "Ez_out (write_sample i c s (Fr, Ft, Fz) (Gr, Gt, Gz) out) = (Ez_out out)[i := Fz]"
  "Bx_out (write_sample i c s (Fr, Ft, Fz) (Gr, Gt, Gz) out) = (Bx_out out)[i := c * Gr - s * Gt]"
  "By_out (write_sample i c s (Fr, Ft, Fz) (Gr, Gt, Gz) out) = (By_out out)[i := s * Gr + c * Gt]"
  "Bz_out (write_sample i c s (Fr, Ft, Fz) (Gr, Gt, Gz) out) = (Bz_out out)[i := Gz]"
  by (simp_all add: write_sample_def)

lemma write_sample_at:
  assumes "well_sized n out" and "i < n"
  shows "Ex_out (write_sample i c s (Fr, Ft, Fz) (Gr, Gt, Gz) out) ! i = c * Fr - s * Ft"
    and "Ey_out (write_sample i c s (Fr, Ft, Fz) (Gr, Gt, Gz) out) ! i = s * Fr + c * Ft"
    and "Ez_out (write_sample i c s (Fr, Ft, Fz) (Gr, Gt, Gz) out) ! i = Fz"
    and "Bx_out (write_sample i c s (Fr, Ft, Fz) (Gr, Gt, Gz) out) ! i = c * Gr - s * Gt"
    and "By_out (write_sample i c s (Fr, Ft, Fz) (Gr, Gt, Gz) out) ! i = s * Gr + c * Gt"
    and "Bz_out (write_sample i c s (Fr, Ft, Fz) (Gr, Gt, Gz) out) ! i = Gz"
  using assms by (simp_all add: write_sample_sel well_sized_def)

lemma polar_of_conversion:
  "cylindrical_conversion xj yj = Inr (rj, c, s) \<Longrightarrow> polar xj yj = (rj, c, s)"
  by (simp add: cylindrical_conversion_eq)

lemma ramp_fields_grids:
  "E_grids ramp_fields = (radial_ramp, zero_grid, zero_grid, zero_grid, zero_grid, zero_grid)"
  "B_grids ramp_fields = (zero_grid, radial_ramp, zero_grid, zero_grid, zero_grid, zero_grid)"
  by (simp_all add: E_grids_def B_grids_def ramp_fields_def)

lemma linear_sum_fixture:
  "linear_sum p zero_grid izl izu irl iru a b c d = 0"
  "linear_sum 1 radial_ramp izl izu irl iru a b c d
     = of_int irl * (a + c) + of_int iru * (b + d)"
  by (simp_all add: linear_sum_def zero_grid_def radial_ramp_def algebra_simps)

lemma cubic_sum_zero_grid: "cubic_sum p zero_grid ir iz Sr Sz = 0"
  by (simp add: cubic_sum_def zero_grid_def)

lemma sum_list_four: "(\<Sum>k\<leftarrow>[0..<4]. f k) = f 0 + f 1 + f 2 + (f 3 :: real)"
  by (simp add: upt_0_4)

lemma cubic_sum_radial_ramp:
  "cubic_sum 1 radial_ramp [a, b, c, d] iz [p, q, r, s] [t, u, v, w]
     = (t + u + v + w) * (of_int a * p + of_int b * q + of_int c * r + of_int d * s)"
  by (simp add: cubic_sum_def radial_ramp_def sum_list_four algebra_simps)

lemma polar_on_y: "polar 0 (3 / 2) = (3 / 2, 0, 1)"
  by (simp add: polar_def)

lemma linear_fixture:
  "linear_gather_modes c s (E_grids ramp_fields) (linear_stencil_of box (3 / 2) 2) = (1, 0, 0)"
  "linear_gather_modes c s (B_grids ramp_fields) (linear_stencil_of box (3 / 2) 2) = (0, 1, 0)"
  by (simp_all add: linear_gather_modes_def add_linear_gather_for_mode_def ramp_fields_grids
      linear_sum_fixture exptheta_m0_def linear_stencil_of_sel r_cell_def z_cell_def box_sel)

lemma cubic_stencil_fixture:
  "cubic_stencil_of box (3 / 2) 2
     = ([0, 1, 2, 3], [0, 1, 2, 3], [1 / 6, 2 / 3, 1 / 6, 0], [1 / 48, 23 / 48, 23 / 48, 1 / 48])"
  by (simp add: cubic_stencil_of_eq r_cell_def z_cell_def box_sel cubic_indices_def
      cubic_weights_def reflect_clamp_def wrap_once_def power3_eq_cube power2_eq_square)

lemma cubic_fixture:
  "cubic_gather_modes c s (E_grids ramp_fields) (cubic_stencil_of box (3 / 2) 2) = (1, 0, 0)"
  "cubic_gather_modes c s (B_grids ramp_fields) (cubic_stencil_of box (3 / 2) 2) = (0, 1, 0)"
  by (simp_all add: cubic_gather_modes_def add_cubic_gather_for_mode_def ramp_fields_grids
      cubic_sum_zero_grid cubic_sum_radial_ramp exptheta_m0_def cubic_stencil_fixture)

lemma out0_sized: "well_sized (Suc 0) out0"
  by (simp add: well_sized_def out0_def)

lemma write_sample_sized:
  "well_sized n out \<Longrightarrow> well_sized n (write_sample j c s F G out)"
  by (cases F, cases G) (simp add: well_sized_def write_sample_sel)

lemma write_sample_other:
  "k \<noteq> j \<Longrightarrow> sample_at k (write_sample j c s F G out) = sample_at k out"
  by (cases F, cases G) (simp add: sample_at_def write_sample_sel)

lemma write_sample_here:
  assumes "well_sized n out" and "i < n"
  shows "sample_at i (write_sample i c s (Fr, Ft, Fz) (Gr, Gt, Gz) out)
           = (c * Fr - s * Ft, s * Fr + c * Ft, Fz, c * Gr - s * Gt, s * Gr + c * Gt, Gz)"
  by (simp add: sample_at_def write_sample_at [OF assms])

lemma run_threads_frame:
  assumes frame: "\<And>j out. \<exists>out'. body j out = Inr out'
                    \<and> (\<forall>n. well_sized n out \<longrightarrow> well_sized n out')
                    \<and> (\<forall>k. k \<noteq> j \<longrightarrow> sample_at k out' = sample_at k out)"
    and "i \<notin> set js"
  shows "\<exists>out'. run_threads body js out = Inr out'
           \<and> (\<forall>n. well_sized n out \<longrightarrow> well_sized n out')
           \<and> sample_at i out' = sample_at i out"
  using assms(2)
proof (induction js arbitrary: out)
  case Nil
  then show ?case by simp
next
  case (Cons j js)
  from frame [of j out] obtain o1 where o1: "body j out = Inr o1"
    "\<forall>n. well_sized n out \<longrightarrow> well_sized n o1"
    "\<forall>k. k \<noteq> j \<longrightarrow> sample_at k o1 = sample_at k out"
    by blast
  from Cons.prems have ij: "i \<noteq> j" and rest: "i \<notin> set js"
    by simp_all
  from Cons.IH [OF rest, of o1] obtain o2 where o2: "run_threads body js o1 = Inr o2"
    "\<forall>n. well_sized n o1 \<longrightarrow> well_sized n o2" "sample_at i o2 = sample_at i o1"
    by blast
  have "run_threads body (j # js) out = Inr o2"
    by (simp add: o1(1) o2(1))
  moreover have "\<forall>n. well_sized n out \<longrightarrow> well_sized n o2"
    using o1(2) o2(2) by blast
  moreover have "sample_at i o2 = sample_at i out"
    using o1(3) o2(3) ij by simp
  ultimately show ?case by blast
qed

lemma run_threads_hit:
  assumes frame: "\<And>j out. \<exists>out'. body j out = Inr out'
                    \<and> (\<forall>n. well_sized n out \<longrightarrow> well_sized n out')
                    \<and> (\<forall>k. k \<noteq> j \<longrightarrow> sample_at k out' = sample_at k out)"
    and hit: "\<And>out. well_sized n out \<Longrightarrow> \<exists>out'. body i out = Inr out' \<and> sample_at i out' = v"
    and "i \<in> set js" and "well_sized n out"
  shows "\<exists>out'. run_threads body js out = Inr out' \<and> sample_at i out' = v"
  using assms(3,4)
proof (induction js arbitrary: out)
  case Nil
  then show ?case by simp
next
  case (Cons j js)
  from frame [of j out] obtain o1 where o1: "body j out = Inr o1"
    "\<forall>n. well_sized n out \<longrightarrow> well_sized n o1"
    "\<forall>k. k \<noteq> j \<longrightarrow> sample_at k o1 = sample_at k out"
    by blast
  from o1(2) Cons.prems(2) have sized1: "well_sized n o1"
    by blast
  show ?case
  proof (cases "i \<in> set js")
    case True
    from Cons.IH [OF True sized1] obtain o2 where
      "run_threads body js o1 = Inr o2" "sample_at i o2 = v"
      by blast
    then show ?thesis
      by (simp add: o1(1))
  next
    case False
    with Cons.prems(1) have ij: "j = i"
      by simp
    from hit [OF Cons.prems(2)] o1(1) ij have here: "sample_at i o1 = v"
      by simp
    from run_threads_frame [of body i js o1, OF frame False] obtain o2 where
      "run_threads body js o1 = Inr o2" "sample_at i o2 = sample_at i o1"
      by blast
    with here show ?thesis
      by (simp add: o1(1))
  qed
qed

lemma gather_field_gpu_linear_frame:
  "\<exists>out'. gather_field_gpu_linear j x y z geom flds out = Inr out'
     \<and> (\<forall>n. well_sized n out \<longrightarrow> well_sized n out')
     \<and> (\<forall>k. k \<noteq> j \<longrightarrow> sample_at k out' = sample_at k out)"
proof (cases "j < length x")
  case True
  obtain rj c s where p: "polar (x ! j) (y ! j) = (rj, c, s)"
    by (cases "polar (x ! j) (y ! j)")
  show ?thesis
    unfolding gather_field_gpu_linear_eq [OF True p]
    by (simp add: write_sample_sized write_sample_other)
next
  case False
  then show ?thesis
    by (simp add: gather_field_gpu_linear_def)
qed

lemma gather_field_gpu_cubic_frame:
  "\<exists>out'. gather_field_gpu_cubic j x y z geom flds out = Inr out'
     \<and> (\<forall>n. well_sized n out \<longrightarrow> well_sized n out')
     \<and> (\<forall>k. k \<noteq> j \<longrightarrow> sample_at k out' = sample_at k out)"
proof (cases "j < length x")
  case True
  obtain rj c s where p: "polar (x ! j) (y ! j) = (rj, c, s)"
    by (cases "polar (x ! j) (y ! j)")
  show ?thesis
    unfolding gather_field_gpu_cubic_eq [OF True p]
    by (simp add: write_sample_sized write_sample_other)
next
  case False
  then show ?thesis
    by (simp add: gather_field_gpu_cubic_def)
qed

lemma gather_field_gpu_linear_hit:
  assumes "i < length x" and "well_sized n out" and "i < n"
  shows "\<exists>out'. gather_field_gpu_linear i x y z geom flds out = Inr out'
           \<and> sample_at i out' = linear_sample geom flds (x ! i) (y ! i) (z ! i)"
proof -
  obtain rj c s where p: "polar (x ! i) (y ! i) = (rj, c, s)"
    by (cases "polar (x ! i) (y ! i)")
  obtain Er Et Ez where e: "linear_gather_modes c s (E_grids flds)
      (linear_stencil_of geom rj (z ! i)) = (Er, Et, Ez)"
    by (cases "linear_gather_modes c s (E_grids flds) (linear_stencil_of geom rj (z ! i))")
  obtain Br Bt Bz where b: "linear_gather_modes c s (B_grids flds)
      (linear_stencil_of geom rj (z ! i)) = (Br, Bt, Bz)"
    by (cases "linear_gather_modes c s (B_grids flds) (linear_stencil_of geom rj (z ! i))")
  show ?thesis
    unfolding gather_field_gpu_linear_eq [OF assms(1) p] e b
    by (simp add: write_sample_here [OF assms(2) assms(3)] linear_sample_def p e b)
qed

lemma gather_field_gpu_cubic_hit:
  assumes "i < length x" and "well_sized n out" and "i < n"
  shows "\<exists>out'. gather_field_gpu_cubic i x y z geom flds out = Inr out'
           \<and> sample_at i out' = cubic_sample geom flds (x ! i) (y ! i) (z ! i)"
proof -
  obtain rj c s where p: "polar (x ! i) (y ! i) = (rj, c, s)"
    by (cases "polar (x ! i) (y ! i)")
  obtain Er Et Ez where e: "cubic_gather_modes c s (E_grids flds)
      (cubic_stencil_of geom rj (z ! i)) = (Er, Et, Ez)"
    by (cases "cubic_gather_modes c s (E_grids flds) (cubic_stencil_of geom rj (z ! i))")
  obtain Br Bt Bz where b: "cubic_gather_modes c s (B_grids flds)
      (cubic_stencil_of geom rj (z ! i)) = (Br, Bt, Bz)"
    by (cases "cubic_gather_modes c s (B_grids flds) (cubic_stencil_of geom rj (z ! i))")
  show ?thesis
    unfolding gather_field_gpu_cubic_eq [OF assms(1) p] e b
    by (simp add: write_sample_here [OF assms(2) assms(3)] cubic_sample_def p e b)
qed

lemma launch_linear_at:
  assumes "i < n" and "i < length x" and "well_sized m out" and "i < m"
  shows "\<exists>out'. launch_linear n x y z geom flds out = Inr out'
           \<and> sample_at i out' = linear_sample geom flds (x ! i) (y ! i) (z ! i)"
  unfolding launch_linear_def
proof (rule run_threads_hit [where n = m])
  show "i \<in> set [0..<n]"
    using assms(1) by simp
  show "well_sized m out"
    by (rule assms(3))
  show "\<exists>out'. gather_field_gpu_linear j x y z geom flds out = Inr out'
     \<and> (\<forall>n. well_sized n out \<longrightarrow> well_sized n out')
     \<and> (\<forall>k. k \<noteq> j \<longrightarrow> sample_at k out' = sample_at k out)" for j out
    by (rule gather_field_gpu_linear_frame)
  show "\<exists>out'. gather_field_gpu_linear i x y z geom flds out = Inr out'
           \<and> sample_at i out' = linear_sample geom flds (x ! i) (y ! i) (z ! i)"
    if "well_sized m out" for out
    by (rule gather_field_gpu_linear_hit [OF assms(2) that assms(4)])
qed

lemma launch_cubic_at:
  assumes "i < n" and "i < length x" and "well_sized m out" and "i < m"
  shows "\<exists>out'. launch_cubic n x y z geom flds out = Inr out'
           \<and> sample_at i out' = cubic_sample geom flds (x ! i) (y ! i) (z ! i)"
  unfolding launch_cubic_def
proof (rule run_threads_hit [where n = m])
  show "i \<in> set [0..<n]"
    using assms(1) by simp
  show "well_sized m out"
    by (rule assms(3))
  show "\<exists>out'. gather_field_gpu_cubic j x y z geom flds out = Inr out'
     \<and> (\<forall>n. well_sized n out \<longrightarrow> well_sized n out')
     \<and> (\<forall>k. k \<noteq> j \<longrightarrow> sample_at k out' = sample_at k out)" for j out
    by (rule gather_field_gpu_cubic_frame)
  show "\<exists>out'. gather_field_gpu_cubic i x y z geom flds out = Inr out'
           \<and> sample_at i out' = cubic_sample geom flds (x ! i) (y ! i) (z ! i)"
    if "well_sized m out" for out
    by (rule gather_field_gpu_cubic_hit [OF assms(2) that assms(4)])
qed

lemma linear_weights_sum: "of_int (\<lfloor>c\<rfloor> + 1) - c + (c - of_int \<lfloor>c\<rfloor>) = (1::real)"
  by simp

lemma cubic_weights_sum: "sum_list (cubic_weights rc (cubic_indices rc)) = 1"
  by (simp add: cubic_weights_def cubic_indices_def Let_def power3_eq_cube power2_eq_square
      algebra_simps)

lemma length_cubic_weights: "length (cubic_weights rc ix) = 4"
  by (simp add: cubic_weights_def)

lemma cubic_weights_four:
  "\<exists>a b c d. cubic_weights rc (cubic_indices rc) = [a, b, c, d] \<and> a + b + c + d = 1"
proof -
  obtain a b c d where w: "cubic_weights rc (cubic_indices rc) = [a, b, c, d]"
    using length_four [OF length_cubic_weights] by blast
  from cubic_weights_sum [of rc] have "a + b + c + d = 1"
    unfolding w by simp
  with w show ?thesis
    by blast
qed

lemma linear_sum_same_radial:
  "linear_sum p g izl izu n n (a * b) (a * b') (d * b) (d * b')
     = (Re (p * g izl n) * a + Re (p * g izu n) * d) * (b + b')"
  by (simp add: linear_sum_def algebra_simps)

lemma linear_gather_modes_cong:
  assumes "iz_lower st = iz_lower st'" and "iz_upper st = iz_upper st'"
    and "ir_lower st = ir_lower st'" and "ir_upper st = ir_upper st'"
    and "Sz_lower st = Sz_lower st'" and "Sz_upper st = Sz_upper st'"
    and "Sr_lower st = Sr_lower st'" and "Sr_upper st = Sr_upper st'"
  shows "linear_gather_modes c s grids st = linear_gather_modes c s grids st'"
  by (simp add: linear_gather_modes_def add_linear_gather_for_mode_def assms)

lemma linear_gather_modes_edge:
  assumes "iz_lower st = iz_lower st'" and "iz_upper st = iz_upper st'"
    and "Sz_lower st = Sz_lower st'" and "Sz_upper st = Sz_upper st'"
    and "ir_lower st = n" and "ir_upper st = n" and "ir_lower st' = n" and "ir_upper st' = n"
    and "Sr_lower st + Sr_upper st = 1" and "Sr_lower st' + Sr_upper st' = 1"
  shows "linear_gather_modes c s grids st = linear_gather_modes c s grids st'"
proof -
  obtain g1 g2 g3 g4 g5 g6 where g: "grids = (g1, g2, g3, g4, g5, g6)"
    by (cases grids)
  show ?thesis
    unfolding g linear_gather_modes_def add_linear_gather_for_mode_def Let_def
    by (simp add: assms(5-8) linear_sum_same_radial assms(9,10) assms(1-4))
qed

lemma linear_stencil_edge:
  assumes "1 \<le> Nr geom" and "of_int (Nr geom - 1) \<le> r_cell geom rj"
  shows "ir_lower (linear_stencil_of geom rj zj) = Nr geom - 1"
    and "ir_upper (linear_stencil_of geom rj zj) = Nr geom - 1"
    and "Sr_lower (linear_stencil_of geom rj zj) + Sr_upper (linear_stencil_of geom rj zj) = 1"
proof -
  from assms(2) have fl: "Nr geom - 1 \<le> \<lfloor>r_cell geom rj\<rfloor>"
    by (simp only: le_floor_iff)
  from assms have pos: "\<not> r_cell geom rj < 0"
    by simp
  from fl pos show "ir_lower (linear_stencil_of geom rj zj) = Nr geom - 1"
    by (simp add: linear_stencil_of_sel Let_def)
  from fl show "ir_upper (linear_stencil_of geom rj zj) = Nr geom - 1"
    by (simp add: linear_stencil_of_sel)
  from pos show "Sr_lower (linear_stencil_of geom rj zj) + Sr_upper (linear_stencil_of geom rj zj) = 1"
    by (simp add: linear_stencil_of_sel)
qed

lemma cubic_sum_same_radial:
  "cubic_sum p g [n, n, n, n] iz [a, b, c, d] Sz
     = (a + b + c + d) * cubic_sum p g [n, n, n, n] iz [1, 0, 0, 0] Sz"
  by (simp add: cubic_sum_def sum_list_four algebra_simps)

lemma reflect_clamp_edge: "1 \<le> nr \<Longrightarrow> nr - 1 \<le> v \<Longrightarrow> reflect_clamp nr v = nr - 1"
  by (simp add: reflect_clamp_def Let_def)

lemma flip_nonneg:
  "0 \<le> i0 \<Longrightarrow> 0 \<le> i1 \<Longrightarrow> 0 \<le> i2 \<Longrightarrow> 0 \<le> i3 \<Longrightarrow>
   map2 (\<lambda>k w. if k < 0 then - w else w) [i0, i1, i2, i3 :: int] [a, b, c, d :: real]
     = [a, b, c, d]"
  by simp

lemma cubic_stencil_edge:
  assumes "1 \<le> Nr geom" and "of_int (Nr geom) \<le> r_cell geom rj"
  shows "\<exists>a b c d. a + b + c + d = 1 \<and>
           cubic_stencil_of geom rj zj
             = ([Nr geom - 1, Nr geom - 1, Nr geom - 1, Nr geom - 1],
                map (wrap_once (Nz geom)) (cubic_indices (z_cell geom zj)),
                [a, b, c, d],
                cubic_weights (z_cell geom zj) (cubic_indices (z_cell geom zj)))"
proof -
  from assms(2) have fl: "Nr geom \<le> \<lfloor>r_cell geom rj\<rfloor>"
    by (simp only: le_floor_iff)
  obtain a b c d where w: "cubic_weights (r_cell geom rj) (cubic_indices (r_cell geom rj)) = [a, b, c, d]"
    and s: "a + b + c + d = 1"
    using cubic_weights_four by blast
  have ix: "cubic_indices (r_cell geom rj)
      = [\<lfloor>r_cell geom rj\<rfloor> - 1, \<lfloor>r_cell geom rj\<rfloor>, \<lfloor>r_cell geom rj\<rfloor> + 1, \<lfloor>r_cell geom rj\<rfloor> + 2]"
    by (simp add: cubic_indices_def Let_def)
  have "cubic_stencil_of geom rj zj
             = ([Nr geom - 1, Nr geom - 1, Nr geom - 1, Nr geom - 1],
                map (wrap_once (Nz geom)) (cubic_indices (z_cell geom zj)),
                [a, b, c, d],
                cubic_weights (z_cell geom zj) (cubic_indices (z_cell geom zj)))"
  proof -
    from fl assms(1) have ir: "map (reflect_clamp (Nr geom)) (cubic_indices (r_cell geom rj))
        = [Nr geom - 1, Nr geom - 1, Nr geom - 1, Nr geom - 1]"
      by (simp add: ix reflect_clamp_edge)
    from fl assms(1) have fl1: "1 \<le> \<lfloor>r_cell geom rj\<rfloor>"
      by linarith
    have Sr: "map2 (\<lambda>k w. if k < 0 then - w else w) (cubic_indices (r_cell geom rj)) [a, b, c, d]
        = [a, b, c, d]"
      unfolding ix by (rule flip_nonneg) (use fl1 in linarith)+
    show ?thesis
      unfolding cubic_stencil_of_eq w ir Sr by simp
  qed
  with s show ?thesis
    by blast
qed

lemma cubic_gather_modes_edge:
  assumes "a + b + c + d = 1"
  shows "cubic_gather_modes cj sj grids ([n, n, n, n], iz, [a, b, c, d], Sz)
           = cubic_gather_modes cj sj grids ([n, n, n, n], iz, [1, 0, 0, 0], Sz)"
proof -
  obtain g1 g2 g3 g4 g5 g6 where g: "grids = (g1, g2, g3, g4, g5, g6)"
    by (cases grids)
  show ?thesis
    unfolding g cubic_gather_modes_def add_cubic_gather_for_mode_def Let_def
    by (simp add: cubic_sum_same_radial [of _ _ n iz a b c d] assms)
qed

lemma linear_edge_same:
  assumes "1 \<le> Nr geom"
    and "of_int (Nr geom - 1) \<le> r_cell geom rj" and "of_int (Nr geom - 1) \<le> r_cell geom rj'"
  shows "linear_gather_modes c s grids (linear_stencil_of geom rj zj)
           = linear_gather_modes c s grids (linear_stencil_of geom rj' zj)"
  by (rule linear_gather_modes_edge [where n = "Nr geom - 1"])
    (simp_all add: linear_stencil_edge [OF assms(1) assms(2)]
      linear_stencil_edge [OF assms(1) assms(3)] linear_stencil_of_sel(3,4,7,8))

lemma cubic_edge_same:
  assumes "1 \<le> Nr geom"
    and "of_int (Nr geom) \<le> r_cell geom rj" and "of_int (Nr geom) \<le> r_cell geom rj'"
  shows "cubic_gather_modes c s grids (cubic_stencil_of geom rj zj)
           = cubic_gather_modes c s grids (cubic_stencil_of geom rj' zj)"
proof -
  from cubic_stencil_edge [OF assms(1) assms(2), of zj] obtain a b c' d
    where 1: "a + b + c' + d = 1" "cubic_stencil_of geom rj zj
             = ([Nr geom - 1, Nr geom - 1, Nr geom - 1, Nr geom - 1],
                map (wrap_once (Nz geom)) (cubic_indices (z_cell geom zj)),
                [a, b, c', d],
                cubic_weights (z_cell geom zj) (cubic_indices (z_cell geom zj)))"
    by blast
  from cubic_stencil_edge [OF assms(1) assms(3), of zj] obtain a' b' c'' d'
    where 2: "a' + b' + c'' + d' = 1" "cubic_stencil_of geom rj' zj
             = ([Nr geom - 1, Nr geom - 1, Nr geom - 1, Nr geom - 1],
                map (wrap_once (Nz geom)) (cubic_indices (z_cell geom zj)),
                [a', b', c'', d'],
                cubic_weights (z_cell geom zj) (cubic_indices (z_cell geom zj)))"
    by blast
  show ?thesis
    unfolding 1(2) 2(2)
    by (simp only: cubic_gather_modes_edge [OF 1(1)] cubic_gather_modes_edge [OF 2(1)])
qed

lemma polar_on_x: "0 < xj \<Longrightarrow> polar xj 0 = (xj, 1, 0)"
  by (simp add: polar_def)

lemma cubic_stencil_beyond:
  "cubic_stencil_of box (11 / 2) 2
     = ([3, 3, 3, 3], [0, 1, 2, 3], [1 / 6, 2 / 3, 1 / 6, 0], [1 / 48, 23 / 48, 23 / 48, 1 / 48])"
  by (simp add: cubic_stencil_of_eq r_cell_def z_cell_def box_sel cubic_indices_def
      cubic_weights_def reflect_clamp_def wrap_once_def power3_eq_cube power2_eq_square)

lemma cubic_stencil_last_cell:
  "cubic_stencil_of box (7 / 2) 2
     = ([2, 3, 3, 3], [0, 1, 2, 3], [1 / 6, 2 / 3, 1 / 6, 0], [1 / 48, 23 / 48, 23 / 48, 1 / 48])"
  by (simp add: cubic_stencil_of_eq r_cell_def z_cell_def box_sel cubic_indices_def
      cubic_weights_def reflect_clamp_def wrap_once_def power3_eq_cube power2_eq_square)

lemma wrap_once_shift:
  "- nz \<le> v \<Longrightarrow> v \<le> nz - 1 \<Longrightarrow> wrap_once nz (v + nz) = wrap_once nz v"
  by (simp add: wrap_once_def Let_def)

lemma cubic_indices_shift:
  "cubic_indices (c + of_int n) = map (\<lambda>v. v + n) (cubic_indices c)"
  by (simp add: cubic_indices_def Let_def)

lemma cubic_weights_shift:
  "cubic_weights (c + of_int n) (cubic_indices (c + of_int n)) = cubic_weights c (cubic_indices c)"
  by (simp add: cubic_weights_def cubic_indices_def Let_def add_diff_eq)

lemma z_cell_period:
  assumes "0 < invdz geom" and "dz = 1 / invdz geom"
  shows "z_cell geom (zmin geom + (of_int (Nz geom) * dz - eps))
           = z_cell geom (zmin geom - eps) + of_int (Nz geom)"
  using assms by (simp add: z_cell_def algebra_simps)

lemma z_cell_below:
  assumes "0 < invdz geom" and "dz = 1 / invdz geom" and "0 < eps"
  shows "\<lfloor>z_cell geom (zmin geom - eps)\<rfloor> \<le> - 1"
    and "eps \<le> (of_int (Nz geom) - b) * dz \<Longrightarrow> b - 1 / 2 - of_int (Nz geom) \<le> z_cell geom (zmin geom - eps)"
proof -
  from assms(1) assms(3) have "0 < invdz geom * eps"
    by simp
  then have "z_cell geom (zmin geom - eps) < 0"
    by (simp add: z_cell_def)
  then have "\<lfloor>z_cell geom (zmin geom - eps)\<rfloor> < 0"
    by (simp only: floor_less_iff of_int_0)
  then show "\<lfloor>z_cell geom (zmin geom - eps)\<rfloor> \<le> - 1"
    by linarith
  assume "eps \<le> (of_int (Nz geom) - b) * dz"
  with assms(1) have "invdz geom * eps \<le> invdz geom * ((of_int (Nz geom) - b) * dz)"
    by (simp only: mult_le_cancel_left_pos)
  also from assms(1) assms(2) have "invdz geom * ((of_int (Nz geom) - b) * dz) = of_int (Nz geom) - b"
    by simp
  finally show "b - 1 / 2 - of_int (Nz geom) \<le> z_cell geom (zmin geom - eps)"
    by (simp add: z_cell_def)
qed

lemma linear_stencil_period:
  assumes "zc' = zc + of_int (Nz geom)" and "z_cell geom zj = zc" and "z_cell geom zj' = zc'"
    and "- Nz geom \<le> \<lfloor>zc\<rfloor>" and "\<lfloor>zc\<rfloor> \<le> - 1"
  shows "iz_lower (linear_stencil_of geom rj zj') = iz_lower (linear_stencil_of geom rj zj)"
    and "iz_upper (linear_stencil_of geom rj zj') = iz_upper (linear_stencil_of geom rj zj)"
proof -
  have fl: "\<lfloor>zc'\<rfloor> = \<lfloor>zc\<rfloor> + Nz geom"
    unfolding assms(1) by simp
  from assms(4,5) have "wrap_once (Nz geom) (\<lfloor>zc\<rfloor> + Nz geom) = wrap_once (Nz geom) \<lfloor>zc\<rfloor>"
    by (intro wrap_once_shift) linarith+
  then show "iz_lower (linear_stencil_of geom rj zj') = iz_lower (linear_stencil_of geom rj zj)"
    by (simp only: linear_stencil_of_sel assms(2) assms(3) fl)
  from assms(4,5) have "wrap_once (Nz geom) (\<lfloor>zc\<rfloor> + 1 + Nz geom) = wrap_once (Nz geom) (\<lfloor>zc\<rfloor> + 1)"
    by (intro wrap_once_shift) linarith+
  then have "wrap_once (Nz geom) (\<lfloor>zc\<rfloor> + Nz geom + 1) = wrap_once (Nz geom) (\<lfloor>zc\<rfloor> + 1)"
    by (simp only: add.assoc add.commute [of 1])
  then show "iz_upper (linear_stencil_of geom rj zj') = iz_upper (linear_stencil_of geom rj zj)"
    by (simp only: linear_stencil_of_sel assms(2) assms(3) fl)
qed

lemma linear_weights_period:
  "Sz_lower (linear_weights rc (zc + of_int n)) = Sz_lower (linear_weights rc zc)"
  "Sz_upper (linear_weights rc (zc + of_int n)) = Sz_upper (linear_weights rc zc)"
  by (simp_all add: linear_weights_sel)

lemma linear_stencil_weights_period:
  assumes "z_cell geom zj' = z_cell geom zj + of_int n"
  shows "Sz_lower (linear_stencil_of geom rj zj') = Sz_lower (linear_stencil_of geom rj zj)"
    and "Sz_upper (linear_stencil_of geom rj zj') = Sz_upper (linear_stencil_of geom rj zj)"
  by (simp_all add: linear_stencil_of_sel assms)

lemma cubic_axial_period:
  assumes "1 - nz \<le> fl" and "fl \<le> - 1"
  shows "map (wrap_once nz) [fl + nz - 1, fl + nz, fl + nz + 1, fl + nz + 2]
           = map (wrap_once nz) [fl - 1, fl, fl + 1, fl + 2]"
  using assms by (simp add: wrap_once_def Let_def)

lemma cubic_stencil_period:
  assumes "z_cell geom zj' = z_cell geom zj + of_int (Nz geom)"
    and "1 - Nz geom \<le> \<lfloor>z_cell geom zj\<rfloor>" and "\<lfloor>z_cell geom zj\<rfloor> \<le> - 1"
  shows "cubic_stencil_of geom rj zj' = cubic_stencil_of geom rj zj"
proof -
  have ix: "cubic_indices (z_cell geom zj)
      = [\<lfloor>z_cell geom zj\<rfloor> - 1, \<lfloor>z_cell geom zj\<rfloor>, \<lfloor>z_cell geom zj\<rfloor> + 1, \<lfloor>z_cell geom zj\<rfloor> + 2]"
    by (simp add: cubic_indices_def Let_def)
  have ix': "cubic_indices (z_cell geom zj + of_int (Nz geom))
      = [\<lfloor>z_cell geom zj\<rfloor> + Nz geom - 1, \<lfloor>z_cell geom zj\<rfloor> + Nz geom,
         \<lfloor>z_cell geom zj\<rfloor> + Nz geom + 1, \<lfloor>z_cell geom zj\<rfloor> + Nz geom + 2]"
    by (simp add: cubic_indices_def Let_def)
  have "map (wrap_once (Nz geom)) (cubic_indices (z_cell geom zj + of_int (Nz geom)))
      = map (wrap_once (Nz geom)) (cubic_indices (z_cell geom zj))"
    unfolding ix ix' by (rule cubic_axial_period [OF assms(2) assms(3)])
  then show ?thesis
    by (simp only: cubic_stencil_of_eq assms(1) cubic_weights_shift)
qed

section \<open>Partition of unity\<close>

text \<open>
  C3. For every real fractional cell coordinate \<open>c\<close>, the two linear weights
  (upper index minus \<open>c\<close>, and \<open>c\<close> minus lower index) sum to 1 on each axis, and the four
  cubic weights computed from \<open>c\<close> sum to 1, before any boundary treatment.
\<close>

theorem weights_sum_to_one:
  "Sr_lower (linear_weights rc zc) + Sr_upper (linear_weights rc zc) = 1
   \<and> Sz_lower (linear_weights rc zc) + Sz_upper (linear_weights rc zc) = 1
   \<and> sum_list (cubic_weights c (cubic_indices c)) = 1"
proof -
  have lin: "Sr_lower (linear_weights rc zc) + Sr_upper (linear_weights rc zc) = 1"
    "Sz_lower (linear_weights rc zc) + Sz_upper (linear_weights rc zc) = 1"
    by (simp_all add: linear_weights_def Let_def)
  have cub: "sum_list (cubic_weights c (cubic_indices c)) = 1"
    by (simp add: cubic_weights_def cubic_indices_def Let_def power3_eq_cube power2_eq_square
        algebra_simps)
  from lin cub show ?thesis by simp
qed

section \<open>Radial boundary of the cubic kernel\<close>

text \<open>
  C4. In the cubic kernel, for each of the four radial stencil points: an index below 0 is
  replaced by its absolute value minus 1 and its weight is negated; an index that (after
  the reflection, if any) exceeds \<open>Nr - 1\<close> is set to \<open>Nr - 1\<close>, and the clamp leaves the
  weight as it is.
\<close>

theorem cubic_radial_reflect_then_clamp:
  assumes "length ir = 4" and "length Sr = 4" and "k < 4"
  shows "(ir ! k < 0 \<longrightarrow>
            fst (boundary_r_cubic nr (ir, Sr)) ! k
              = (if \<bar>ir ! k\<bar> - 1 > nr - 1 then nr - 1 else \<bar>ir ! k\<bar> - 1)
            \<and> snd (boundary_r_cubic nr (ir, Sr)) ! k = - (Sr ! k))
       \<and> (\<not> ir ! k < 0 \<longrightarrow>
            fst (boundary_r_cubic nr (ir, Sr)) ! k
              = (if ir ! k > nr - 1 then nr - 1 else ir ! k)
            \<and> snd (boundary_r_cubic nr (ir, Sr)) ! k = Sr ! k)"
  unfolding boundary_r_cubic_nth [OF assms] reflect_clamp_def Let_def
  by simp

theorem cubic_radial_reflect_then_clamp_witness:
  "fst (boundary_r_cubic 2 ([- 3, - 1, 0, 5], [1, 2, 3, 4])) ! 0 = 1
   \<and> snd (boundary_r_cubic 2 ([- 3, - 1, 0, 5], [1, 2, 3, 4])) ! 0 = - 1
   \<and> fst (boundary_r_cubic 2 ([- 3, - 1, 0, 5], [1, 2, 3, 4])) ! 3 = 1
   \<and> snd (boundary_r_cubic 2 ([- 3, - 1, 0, 5], [1, 2, 3, 4])) ! 3 = 4"
  using cubic_radial_reflect_then_clamp [of "[- 3, - 1, 0, 5]" "[1, 2, 3, 4]" 0 2]
    cubic_radial_reflect_then_clamp [of "[- 3, - 1, 0, 5]" "[1, 2, 3, 4]" 3 2]
  by simp

text \<open>
  C10. In the cubic kernel, for every real radial cell coordinate and every \<open>Nr \<ge> 1\<close>, each
  of the four radial indices lies in \<open>[0, Nr - 1]\<close> after the boundary loop: the clamp
  follows the reflection in the same turn of the loop.
\<close>

theorem cubic_radial_indices_in_bounds:
  assumes "1 \<le> nr" and "k < 4"
  shows "0 \<le> fst (boundary_r_cubic nr (cubic_indices rc, cubic_weights rc (cubic_indices rc))) ! k
       \<and> fst (boundary_r_cubic nr (cubic_indices rc, cubic_weights rc (cubic_indices rc))) ! k
            \<le> nr - 1"
proof -
  have "fst (boundary_r_cubic nr (cubic_indices rc, cubic_weights rc (cubic_indices rc))) ! k
          = reflect_clamp nr (cubic_indices rc ! k)"
    using less_four [OF assms(2)]
    by (auto simp: cubic_indices_def cubic_weights_def Let_def boundary_r_cubic_four)
  with reflect_clamp_range [OF assms(1)] show ?thesis
    by simp
qed

theorem cubic_radial_indices_in_bounds_witness:
  "0 \<le> fst (boundary_r_cubic 4 (cubic_indices (- 7 / 2),
            cubic_weights (- 7 / 2) (cubic_indices (- 7 / 2)))) ! 0
   \<and> fst (boundary_r_cubic 4 (cubic_indices (- 7 / 2),
            cubic_weights (- 7 / 2) (cubic_indices (- 7 / 2)))) ! 0 \<le> 4 - 1"
  using cubic_radial_indices_in_bounds [of 4 0 "- 7 / 2"]
  by simp

section \<open>Bounds of the stencil indices\<close>

text \<open>
  C1, as the kernels have it. For a grid with \<open>Nz \<ge> 1\<close> and \<open>Nr \<ge> 1\<close>: in the cubic kernel
  every radial index lies in \<open>[0, Nr - 1]\<close>, for every position; in the linear kernel the
  lower radial index lies in \<open>[0, Nr - 1]\<close> and the upper one is at most \<open>Nr - 1\<close> for every
  position, and at least 0 when the radial cell coordinate is at least \<open>- 1\<close>; the axial
  indices lie in \<open>[0, Nz - 1]\<close> when the axial cell coordinate \<open>z_cell\<close> is within one period
  of the grid, \<open>- Nz \<le> z_cell < 2 Nz - 1\<close> for the linear and \<open>1 - Nz \<le> z_cell < 2 Nz - 2\<close>
  for the cubic kernel: the periodic wrap adds or subtracts \<open>Nz\<close> once.
\<close>

theorem stencil_indices_in_bounds:
  assumes "1 \<le> Nz geom" and "1 \<le> Nr geom"
  shows "0 \<le> ir_lower (linear_stencil_of geom rj zj)
       \<and> ir_lower (linear_stencil_of geom rj zj) \<le> Nr geom - 1
       \<and> ir_upper (linear_stencil_of geom rj zj) \<le> Nr geom - 1
       \<and> (- 1 \<le> r_cell geom rj \<longrightarrow> 0 \<le> ir_upper (linear_stencil_of geom rj zj))
       \<and> (- of_int (Nz geom) \<le> z_cell geom zj \<and> z_cell geom zj < of_int (2 * Nz geom - 1) \<longrightarrow>
            0 \<le> iz_lower (linear_stencil_of geom rj zj)
            \<and> iz_lower (linear_stencil_of geom rj zj) \<le> Nz geom - 1
            \<and> 0 \<le> iz_upper (linear_stencil_of geom rj zj)
            \<and> iz_upper (linear_stencil_of geom rj zj) \<le> Nz geom - 1)
       \<and> (\<forall>k<4. 0 \<le> fst (cubic_stencil_of geom rj zj) ! k
                \<and> fst (cubic_stencil_of geom rj zj) ! k \<le> Nr geom - 1)
       \<and> (of_int (1 - Nz geom) \<le> z_cell geom zj \<and> z_cell geom zj < of_int (2 * Nz geom - 2) \<longrightarrow>
            (\<forall>k<4. 0 \<le> fst (snd (cubic_stencil_of geom rj zj)) ! k
                \<and> fst (snd (cubic_stencil_of geom rj zj)) ! k \<le> Nz geom - 1))"
proof -
  have lower: "0 \<le> ir_lower (linear_stencil_of geom rj zj)
       \<and> ir_lower (linear_stencil_of geom rj zj) \<le> Nr geom - 1
       \<and> ir_upper (linear_stencil_of geom rj zj) \<le> Nr geom - 1"
    using assms(2) by (simp add: linear_stencil_of_sel Let_def)
  have upper: "0 \<le> ir_upper (linear_stencil_of geom rj zj)" if "- 1 \<le> r_cell geom rj"
  proof -
    from that have "- 1 \<le> \<lfloor>r_cell geom rj\<rfloor>"
      by (simp add: le_floor_iff)
    then show ?thesis
      using assms(2) by (simp add: linear_stencil_of_sel)
  qed
  have axial: "0 \<le> iz_lower (linear_stencil_of geom rj zj)
            \<and> iz_lower (linear_stencil_of geom rj zj) \<le> Nz geom - 1
            \<and> 0 \<le> iz_upper (linear_stencil_of geom rj zj)
            \<and> iz_upper (linear_stencil_of geom rj zj) \<le> Nz geom - 1"
    if "- of_int (Nz geom) \<le> z_cell geom zj" and "z_cell geom zj < of_int (2 * Nz geom - 1)"
  proof -
    from that(1) have lo: "- Nz geom \<le> \<lfloor>z_cell geom zj\<rfloor>"
      by (simp add: le_floor_iff)
    from that(2) have hi: "\<lfloor>z_cell geom zj\<rfloor> < 2 * Nz geom - 1"
      by (simp add: floor_less_iff)
    from lo hi show ?thesis
      using wrap_once_in_range [of "Nz geom" "\<lfloor>z_cell geom zj\<rfloor>"]
        wrap_once_in_range [of "Nz geom" "\<lfloor>z_cell geom zj\<rfloor> + 1"]
      by (simp add: linear_stencil_of_sel)
  qed
  have radial: "0 \<le> fst (cubic_stencil_of geom rj zj) ! k
                \<and> fst (cubic_stencil_of geom rj zj) ! k \<le> Nr geom - 1" if "k < 4" for k
    using that reflect_clamp_range [OF assms(2)] by (simp add: cubic_stencil_of_nth)
  have axial4: "0 \<le> fst (snd (cubic_stencil_of geom rj zj)) ! k
                \<and> fst (snd (cubic_stencil_of geom rj zj)) ! k \<le> Nz geom - 1"
    if "of_int (1 - Nz geom) \<le> z_cell geom zj" and "z_cell geom zj < of_int (2 * Nz geom - 2)"
      and "k < 4" for k
  proof -
    from that(1) have lo: "1 - Nz geom \<le> \<lfloor>z_cell geom zj\<rfloor>"
      by (simp only: le_floor_iff)
    from that(2) have hi: "\<lfloor>z_cell geom zj\<rfloor> < 2 * Nz geom - 2"
      by (simp only: floor_less_iff)
    from lo hi that(3) show ?thesis
      using wrap_once_in_range [of "Nz geom" "\<lfloor>z_cell geom zj\<rfloor> - 1 + int k"]
      by (simp add: cubic_stencil_of_nth)
  qed
  from lower upper axial radial axial4 show ?thesis
    by blast
qed

theorem stencil_indices_in_bounds_witness:
  "1 \<le> Nz box \<and> 1 \<le> Nr box \<and> - 1 \<le> r_cell box 1
   \<and> - of_int (Nz box) \<le> z_cell box 2 \<and> z_cell box 2 < of_int (2 * Nz box - 1)
   \<and> of_int (1 - Nz box) \<le> z_cell box 2 \<and> z_cell box 2 < of_int (2 * Nz box - 2)
   \<and> 0 \<le> ir_lower (linear_stencil_of box 1 2)
   \<and> ir_lower (linear_stencil_of box 1 2) \<le> Nr box - 1
   \<and> 0 \<le> ir_upper (linear_stencil_of box 1 2)
   \<and> ir_upper (linear_stencil_of box 1 2) \<le> Nr box - 1
   \<and> 0 \<le> iz_lower (linear_stencil_of box 1 2)
   \<and> iz_lower (linear_stencil_of box 1 2) \<le> Nz box - 1
   \<and> 0 \<le> iz_upper (linear_stencil_of box 1 2)
   \<and> iz_upper (linear_stencil_of box 1 2) \<le> Nz box - 1
   \<and> 0 \<le> fst (cubic_stencil_of box 1 2) ! 0
   \<and> fst (cubic_stencil_of box 1 2) ! 0 \<le> Nr box - 1
   \<and> 0 \<le> fst (snd (cubic_stencil_of box 1 2)) ! 3
   \<and> fst (snd (cubic_stencil_of box 1 2)) ! 3 \<le> Nz box - 1"
proof -
  have geom: "1 \<le> Nz box" "1 \<le> Nr box"
    by (simp_all add: box_sel)
  have rc: "r_cell box 1 = 1 / 2" and zc: "z_cell box 2 = 3 / 2"
    by (simp_all add: r_cell_def z_cell_def box_sel)
  have hyps: "- 1 \<le> r_cell box 1"
    "- of_int (Nz box) \<le> z_cell box 2 \<and> z_cell box 2 < of_int (2 * Nz box - 1)"
    "of_int (1 - Nz box) \<le> z_cell box 2 \<and> z_cell box 2 < of_int (2 * Nz box - 2)"
    by (simp_all add: rc zc box_sel)
  note t = stencil_indices_in_bounds [OF geom, of 1 2]
  from t hyps have lin: "0 \<le> ir_lower (linear_stencil_of box 1 2)
     \<and> ir_lower (linear_stencil_of box 1 2) \<le> Nr box - 1
     \<and> 0 \<le> ir_upper (linear_stencil_of box 1 2)
     \<and> ir_upper (linear_stencil_of box 1 2) \<le> Nr box - 1
     \<and> 0 \<le> iz_lower (linear_stencil_of box 1 2)
     \<and> iz_lower (linear_stencil_of box 1 2) \<le> Nz box - 1
     \<and> 0 \<le> iz_upper (linear_stencil_of box 1 2)
     \<and> iz_upper (linear_stencil_of box 1 2) \<le> Nz box - 1"
    by blast
  from t have "\<forall>k<4. 0 \<le> fst (cubic_stencil_of box 1 2) ! k
                \<and> fst (cubic_stencil_of box 1 2) ! k \<le> Nr box - 1"
    by blast
  then have rad: "0 \<le> fst (cubic_stencil_of box 1 2) ! 0
                \<and> fst (cubic_stencil_of box 1 2) ! 0 \<le> Nr box - 1"
    by simp
  from t hyps have "\<forall>k<4. 0 \<le> fst (snd (cubic_stencil_of box 1 2)) ! k
                \<and> fst (snd (cubic_stencil_of box 1 2)) ! k \<le> Nz box - 1"
    by blast
  then have ax: "0 \<le> fst (snd (cubic_stencil_of box 1 2)) ! 3
                \<and> fst (snd (cubic_stencil_of box 1 2)) ! 3 \<le> Nz box - 1"
    by simp
  from geom hyps lin rad ax show ?thesis
    by blast
qed

text \<open>
  C1, as stated (every index in bounds for every position), fails: six cells below a grid
  of four cells the single wrap leaves the lower axial index of the linear kernel at
  \<open>- 3\<close> and the first axial index of the cubic kernel at \<open>- 4\<close>; and with \<open>rmin = 3\<close> a
  particle on the axis has the upper radial index \<open>- 3\<close> in the linear kernel, which has no
  test for a negative upper index.
\<close>

theorem stencil_indices_out_of_bounds:
  "1 \<le> Nz box \<and> 1 \<le> Nr box
   \<and> iz_lower (linear_stencil_of box 1 (- 6)) = - 3
   \<and> fst (snd (cubic_stencil_of box 1 (- 6))) ! 0 = - 4
   \<and> 1 \<le> Nz (box\<lparr> rmin := 3 \<rparr>) \<and> 1 \<le> Nr (box\<lparr> rmin := 3 \<rparr>)
   \<and> ir_upper (linear_stencil_of (box\<lparr> rmin := 3 \<rparr>) 0 2) = - 3"
proof -
  have zc: "z_cell box (- 6) = - 13 / 2"
    by (simp add: z_cell_def box_sel)
  have rc: "r_cell (box\<lparr> rmin := 3 \<rparr>) 0 = - 7 / 2"
    by (simp add: r_cell_def box_sel)
  have a: "iz_lower (linear_stencil_of box 1 (- 6)) = - 3"
    by (simp add: linear_stencil_of_sel zc box_sel wrap_once_def)
  have b: "fst (snd (cubic_stencil_of box 1 (- 6))) ! 0 = - 4"
    by (simp add: cubic_stencil_of_nth zc box_sel wrap_once_def)
  have c: "ir_upper (linear_stencil_of (box\<lparr> rmin := 3 \<rparr>) 0 2) = - 3"
    by (simp add: linear_stencil_of_sel rc box_sel)
  from a b c show ?thesis
    by (simp add: box_sel)
qed

section \<open>Guard weight of the linear kernel\<close>

text \<open>
  C8. In the linear kernel, when the lower radial index is negative, the lower radial
  weight is moved into the guard weight \<open>Sr_guard\<close>, the lower radial weight is set to 0
  and the lower radial index to 0; otherwise the stencil is left as it is and the guard
  weight of the kernel stays 0. The guard weight contributes nothing to the accumulated
  field: the accumulator returns the same for any guard shapes, and so does the gathering
  of a field for any guard weight.
\<close>

theorem linear_guard_weight:
  "(ir_lower s < 0 \<longrightarrow>
      Sr_guard (guard_lower_r s) = Sr_lower s
      \<and> Sr_lower (guard_lower_r s) = 0
      \<and> ir_lower (guard_lower_r s) = 0)
   \<and> (\<not> ir_lower s < 0 \<longrightarrow> guard_lower_r s = s)
   \<and> (\<lfloor>r_cell geom rj\<rfloor> < 0 \<longrightarrow>
        Sr_guard (linear_stencil_of geom rj zj) = of_int (\<lfloor>r_cell geom rj\<rfloor> + 1) - r_cell geom rj
        \<and> Sr_lower (linear_stencil_of geom rj zj) = 0
        \<and> (1 \<le> Nr geom \<longrightarrow> ir_lower (linear_stencil_of geom rj zj) = 0))
   \<and> (\<not> \<lfloor>r_cell geom rj\<rfloor> < 0 \<longrightarrow> Sr_guard (linear_stencil_of geom rj zj) = 0)
   \<and> add_linear_gather_for_mode m Fr Ft Fz exptheta_m Fr_grid Ft_grid Fz_grid
        izl izu irl iru S_ll S_lu S_lg S_ul S_uu S_ug
      = add_linear_gather_for_mode m Fr Ft Fz exptheta_m Fr_grid Ft_grid Fz_grid
        izl izu irl iru S_ll S_lu 0 S_ul S_uu 0
   \<and> linear_gather_modes cos_j sin_j grids (st\<lparr> Sr_guard := g \<rparr>)
      = linear_gather_modes cos_j sin_j grids st"
proof -
  have step: "(ir_lower s < 0 \<longrightarrow>
      Sr_guard (guard_lower_r s) = Sr_lower s
      \<and> Sr_lower (guard_lower_r s) = 0
      \<and> ir_lower (guard_lower_r s) = 0)
   \<and> (\<not> ir_lower s < 0 \<longrightarrow> guard_lower_r s = s)"
    by (simp add: guard_lower_r_def)
  have kernel: "(\<lfloor>r_cell geom rj\<rfloor> < 0 \<longrightarrow>
        Sr_guard (linear_stencil_of geom rj zj) = of_int (\<lfloor>r_cell geom rj\<rfloor> + 1) - r_cell geom rj
        \<and> Sr_lower (linear_stencil_of geom rj zj) = 0
        \<and> (1 \<le> Nr geom \<longrightarrow> ir_lower (linear_stencil_of geom rj zj) = 0))
   \<and> (\<not> \<lfloor>r_cell geom rj\<rfloor> < 0 \<longrightarrow> Sr_guard (linear_stencil_of geom rj zj) = 0)"
    by (simp add: linear_stencil_of_sel)
  have acc: "add_linear_gather_for_mode m Fr Ft Fz exptheta_m Fr_grid Ft_grid Fz_grid
        izl izu irl iru S_ll S_lu S_lg S_ul S_uu S_ug
      = add_linear_gather_for_mode m Fr Ft Fz exptheta_m Fr_grid Ft_grid Fz_grid
        izl izu irl iru S_ll S_lu 0 S_ul S_uu 0"
    by (simp add: add_linear_gather_for_mode_def)
  have modes: "linear_gather_modes cos_j sin_j grids (st\<lparr> Sr_guard := g \<rparr>)
      = linear_gather_modes cos_j sin_j grids st"
    by (simp add: linear_gather_modes_def add_linear_gather_for_mode_def Let_def
        split: prod.splits)
  from step kernel acc modes show ?thesis
    by blast
qed

theorem linear_guard_weight_witness:
  "Sr_guard (guard_lower_r (linear_weights (- 1 / 4) 0)) = 1 / 4
   \<and> Sr_lower (guard_lower_r (linear_weights (- 1 / 4) 0)) = 0
   \<and> ir_lower (guard_lower_r (linear_weights (- 1 / 4) 0)) = 0
   \<and> guard_lower_r (linear_weights (1 / 4) 0) = linear_weights (1 / 4) 0
   \<and> Sr_guard (linear_stencil_of box (1 / 4) 2) = 1 / 4
   \<and> Sr_lower (linear_stencil_of box (1 / 4) 2) = 0
   \<and> ir_lower (linear_stencil_of box (1 / 4) 2) = 0
   \<and> Sr_guard (linear_stencil_of box 1 2) = 0"
proof -
  have rc: "r_cell box (1 / 4) = - 1 / 4" "r_cell box 1 = 1 / 2"
    by (simp_all add: r_cell_def box_sel)
  show ?thesis
    using linear_guard_weight [of "linear_weights (- 1 / 4) 0"]
      linear_guard_weight [of "linear_weights (1 / 4) 0"]
      linear_guard_weight [of _ box "1 / 4" 2]
      linear_guard_weight [of _ box 1 2]
    by (simp add: rc box_sel linear_weights_sel)
qed

section \<open>Projection on Cartesian components\<close>

text \<open>
  C6. For every particle, with \<open>(Fr, Ft, Fz)\<close> the cylindrical components accumulated for
  a field and \<open>c\<close>, \<open>s\<close> the particle's cosine and sine, both kernels write
  \<open>c * Fr - s * Ft\<close>, \<open>s * Fr + c * Ft\<close> and \<open>Fz\<close> at the particle's index, once into
  \<open>Ex, Ey, Ez\<close> from the E grids and once into \<open>Bx, By, Bz\<close> from the B grids.
\<close>

theorem cartesian_projection:
  assumes "i < length x" and "well_sized (length x) out"
    and "cylindrical_conversion (x ! i) (y ! i) = Inr (rj, c, s)"
    and "linear_gather_modes c s (E_grids flds) (linear_stencil_of geom rj (z ! i)) = (Er, Et, Ez)"
    and "linear_gather_modes c s (B_grids flds) (linear_stencil_of geom rj (z ! i)) = (Br, Bt, Bz)"
    and "cubic_gather_modes c s (E_grids flds) (cubic_stencil_of geom rj (z ! i)) = (Er', Et', Ez')"
    and "cubic_gather_modes c s (B_grids flds) (cubic_stencil_of geom rj (z ! i)) = (Br', Bt', Bz')"
  shows "(\<exists>out'. gather_field_gpu_linear i x y z geom flds out = Inr out'
           \<and> Ex_out out' ! i = c * Er - s * Et
           \<and> Ey_out out' ! i = s * Er + c * Et
           \<and> Ez_out out' ! i = Ez
           \<and> Bx_out out' ! i = c * Br - s * Bt
           \<and> By_out out' ! i = s * Br + c * Bt
           \<and> Bz_out out' ! i = Bz)
       \<and> (\<exists>out'. gather_field_gpu_cubic i x y z geom flds out = Inr out'
           \<and> Ex_out out' ! i = c * Er' - s * Et'
           \<and> Ey_out out' ! i = s * Er' + c * Et'
           \<and> Ez_out out' ! i = Ez'
           \<and> Bx_out out' ! i = c * Br' - s * Bt'
           \<and> By_out out' ! i = s * Br' + c * Bt'
           \<and> Bz_out out' ! i = Bz')"
proof -
  note p = polar_of_conversion [OF assms(3)]
  have lin: "gather_field_gpu_linear i x y z geom flds out
               = Inr (write_sample i c s (Er, Et, Ez) (Br, Bt, Bz) out)"
    using gather_field_gpu_linear_eq [OF assms(1) p, of z geom flds out]
    by (simp only: assms(4) assms(5))
  have cub: "gather_field_gpu_cubic i x y z geom flds out
               = Inr (write_sample i c s (Er', Et', Ez') (Br', Bt', Bz') out)"
    using gather_field_gpu_cubic_eq [OF assms(1) p, of z geom flds out]
    by (simp only: assms(6) assms(7))
  show ?thesis
    unfolding lin cub
    by (simp add: write_sample_at [OF assms(2) assms(1)])
qed

theorem cartesian_projection_witness:
  "cylindrical_conversion ([0] ! 0) ([3 / 2] ! 0) = Inr (3 / 2, 0, 1)
   \<and> (\<exists>out'. gather_field_gpu_linear 0 [0] [3 / 2] [2] box ramp_fields out0 = Inr out'
         \<and> Ex_out out' ! 0 = 0 \<and> Ey_out out' ! 0 = 1 \<and> Ez_out out' ! 0 = 0
         \<and> Bx_out out' ! 0 = - 1 \<and> By_out out' ! 0 = 0 \<and> Bz_out out' ! 0 = 0)
   \<and> (\<exists>out'. gather_field_gpu_cubic 0 [0] [3 / 2] [2] box ramp_fields out0 = Inr out'
         \<and> Ex_out out' ! 0 = 0 \<and> Ey_out out' ! 0 = 1 \<and> Ez_out out' ! 0 = 0
         \<and> Bx_out out' ! 0 = - 1 \<and> By_out out' ! 0 = 0 \<and> Bz_out out' ! 0 = 0)"
proof -
  have conv: "cylindrical_conversion ([0] ! 0) ([3 / 2] ! 0) = Inr (3 / 2, 0, 1)"
    by (simp add: cylindrical_conversion_eq polar_on_y)
  have sized: "well_sized (length [0::real]) out0"
    by (simp add: out0_sized)
  have "0 < length [0::real]"
    by simp
  from cartesian_projection [OF this sized conv,
      where flds = ramp_fields and z = "[2]" and geom = box
        and Er = 1 and Et = 0 and Ez = 0 and Br = 0 and Bt = 1 and Bz = 0
        and Er' = 1 and Et' = 0 and Ez' = 0 and Br' = 0 and Bt' = 1 and Bz' = 0]
  show ?thesis
    using conv by (simp add: linear_fixture cubic_fixture)
qed

text \<open>
  C5. For a particle with \<open>x = 0\<close> and \<open>y = 0\<close>, both kernels take cosine 1 and sine 0,
  the phase factor of mode 1 is 1, and what is written is the accumulated triple itself:
  \<open>Ex = Fr\<close>, \<open>Ey = Ft\<close>, \<open>Ez = Fz\<close>, and the same for B. The thread ends without an
  error: no division by zero is made.
\<close>

theorem on_axis_particle:
  assumes "i < length x" and "well_sized (length x) out" and "x ! i = 0" and "y ! i = 0"
  shows "cylindrical_conversion (x ! i) (y ! i) = Inr (0, 1, 0)
       \<and> exptheta_m1 1 0 = 1
       \<and> (\<exists>out'. gather_field_gpu_linear i x y z geom flds out = Inr out'
           \<and> (Ex_out out' ! i, Ey_out out' ! i, Ez_out out' ! i)
               = linear_gather_modes 1 0 (E_grids flds) (linear_stencil_of geom 0 (z ! i))
           \<and> (Bx_out out' ! i, By_out out' ! i, Bz_out out' ! i)
               = linear_gather_modes 1 0 (B_grids flds) (linear_stencil_of geom 0 (z ! i)))
       \<and> (\<exists>out'. gather_field_gpu_cubic i x y z geom flds out = Inr out'
           \<and> (Ex_out out' ! i, Ey_out out' ! i, Ez_out out' ! i)
               = cubic_gather_modes 1 0 (E_grids flds) (cubic_stencil_of geom 0 (z ! i))
           \<and> (Bx_out out' ! i, By_out out' ! i, Bz_out out' ! i)
               = cubic_gather_modes 1 0 (B_grids flds) (cubic_stencil_of geom 0 (z ! i)))"
proof -
  have p: "polar (x ! i) (y ! i) = (0, 1, 0)"
    by (simp add: polar_def assms(3) assms(4))
  then have conv: "cylindrical_conversion (x ! i) (y ! i) = Inr (0, 1, 0)"
    by (simp add: cylindrical_conversion_eq)
  have phase: "exptheta_m1 1 0 = 1"
    by (simp add: exptheta_m1_def)
  obtain Er Et Ez where e: "linear_gather_modes 1 0 (E_grids flds)
      (linear_stencil_of geom 0 (z ! i)) = (Er, Et, Ez)"
    by (cases "linear_gather_modes 1 0 (E_grids flds) (linear_stencil_of geom 0 (z ! i))")
  obtain Br Bt Bz where b: "linear_gather_modes 1 0 (B_grids flds)
      (linear_stencil_of geom 0 (z ! i)) = (Br, Bt, Bz)"
    by (cases "linear_gather_modes 1 0 (B_grids flds) (linear_stencil_of geom 0 (z ! i))")
  obtain Er' Et' Ez' where e': "cubic_gather_modes 1 0 (E_grids flds)
      (cubic_stencil_of geom 0 (z ! i)) = (Er', Et', Ez')"
    by (cases "cubic_gather_modes 1 0 (E_grids flds) (cubic_stencil_of geom 0 (z ! i))")
  obtain Br' Bt' Bz' where b': "cubic_gather_modes 1 0 (B_grids flds)
      (cubic_stencil_of geom 0 (z ! i)) = (Br', Bt', Bz')"
    by (cases "cubic_gather_modes 1 0 (B_grids flds) (cubic_stencil_of geom 0 (z ! i))")
  have lin: "gather_field_gpu_linear i x y z geom flds out
               = Inr (write_sample i 1 0 (Er, Et, Ez) (Br, Bt, Bz) out)"
    using gather_field_gpu_linear_eq [OF assms(1) p, of z geom flds out]
    by (simp only: e b)
  have cub: "gather_field_gpu_cubic i x y z geom flds out
               = Inr (write_sample i 1 0 (Er', Et', Ez') (Br', Bt', Bz') out)"
    using gather_field_gpu_cubic_eq [OF assms(1) p, of z geom flds out]
    by (simp only: e' b')
  show ?thesis
    unfolding lin cub e b e' b'
    using conv phase by (simp add: write_sample_at [OF assms(2) assms(1)])
qed

theorem on_axis_particle_witness:
  "cylindrical_conversion ([0] ! 0) ([0] ! 0) = Inr (0, 1, 0)
   \<and> exptheta_m1 1 0 = 1
   \<and> (\<exists>out'. gather_field_gpu_linear 0 [0] [0] [2] box ramp_fields out0 = Inr out'
         \<and> (Ex_out out' ! 0, Ey_out out' ! 0, Ez_out out' ! 0)
             = linear_gather_modes 1 0 (E_grids ramp_fields) (linear_stencil_of box 0 ([2] ! 0))
         \<and> (Bx_out out' ! 0, By_out out' ! 0, Bz_out out' ! 0)
             = linear_gather_modes 1 0 (B_grids ramp_fields) (linear_stencil_of box 0 ([2] ! 0)))
   \<and> (\<exists>out'. gather_field_gpu_cubic 0 [0] [0] [2] box ramp_fields out0 = Inr out'
         \<and> (Ex_out out' ! 0, Ey_out out' ! 0, Ez_out out' ! 0)
             = cubic_gather_modes 1 0 (E_grids ramp_fields) (cubic_stencil_of box 0 ([2] ! 0))
         \<and> (Bx_out out' ! 0, By_out out' ! 0, Bz_out out' ! 0)
             = cubic_gather_modes 1 0 (B_grids ramp_fields) (cubic_stencil_of box 0 ([2] ! 0)))"
proof -
  have sized: "well_sized (length [0::real]) out0"
    by (simp add: out0_sized)
  have pos: "0 < length [0::real]" "[0::real] ! 0 = 0"
    by simp_all
  from on_axis_particle [OF pos(1) sized pos(2) pos(2),
      where z = "[2]" and geom = box and flds = ramp_fields]
  show ?thesis .
qed

section \<open>Independence of the particles\<close>

text \<open>
  C9. For every particle index \<open>i\<close>, what a launch leaves in the six output arrays at
  index \<open>i\<close> depends only on \<open>x[i], y[i], z[i]\<close>, the geometry and the twelve grids: two
  launches over the same geometry and grids whose particle arrays agree at index \<open>i\<close>
  (and may differ at every other index, as may the previous contents of the output
  arrays) both end without an error and leave the same six values at index \<open>i\<close>, for
  both kernels.
\<close>

theorem particle_independence:
  assumes "i < n"
    and "i < length x" and "i < length x'"
    and "x ! i = x' ! i" and "y ! i = y' ! i" and "z ! i = z' ! i"
    and "well_sized m out" and "i < m" and "well_sized m' out'" and "i < m'"
  shows "(\<exists>o1 o2. launch_linear n x y z geom flds out = Inr o1
            \<and> launch_linear n x' y' z' geom flds out' = Inr o2
            \<and> Ex_out o1 ! i = Ex_out o2 ! i \<and> Ey_out o1 ! i = Ey_out o2 ! i
            \<and> Ez_out o1 ! i = Ez_out o2 ! i \<and> Bx_out o1 ! i = Bx_out o2 ! i
            \<and> By_out o1 ! i = By_out o2 ! i \<and> Bz_out o1 ! i = Bz_out o2 ! i)
       \<and> (\<exists>o1 o2. launch_cubic n x y z geom flds out = Inr o1
            \<and> launch_cubic n x' y' z' geom flds out' = Inr o2
            \<and> Ex_out o1 ! i = Ex_out o2 ! i \<and> Ey_out o1 ! i = Ey_out o2 ! i
            \<and> Ez_out o1 ! i = Ez_out o2 ! i \<and> Bx_out o1 ! i = Bx_out o2 ! i
            \<and> By_out o1 ! i = By_out o2 ! i \<and> Bz_out o1 ! i = Bz_out o2 ! i)"
proof -
  from launch_linear_at [OF assms(1) assms(2) assms(7) assms(8), of y z geom flds]
  obtain a1 where a1: "launch_linear n x y z geom flds out = Inr a1"
    "sample_at i a1 = linear_sample geom flds (x ! i) (y ! i) (z ! i)"
    by blast
  from launch_linear_at [OF assms(1) assms(3) assms(9) assms(10), of y' z' geom flds]
  obtain a2 where a2: "launch_linear n x' y' z' geom flds out' = Inr a2"
    "sample_at i a2 = linear_sample geom flds (x' ! i) (y' ! i) (z' ! i)"
    by blast
  from launch_cubic_at [OF assms(1) assms(2) assms(7) assms(8), of y z geom flds]
  obtain b1 where b1: "launch_cubic n x y z geom flds out = Inr b1"
    "sample_at i b1 = cubic_sample geom flds (x ! i) (y ! i) (z ! i)"
    by blast
  from launch_cubic_at [OF assms(1) assms(3) assms(9) assms(10), of y' z' geom flds]
  obtain b2 where b2: "launch_cubic n x' y' z' geom flds out' = Inr b2"
    "sample_at i b2 = cubic_sample geom flds (x' ! i) (y' ! i) (z' ! i)"
    by blast
  have "sample_at i a1 = sample_at i a2"
    by (simp add: a1(2) a2(2) assms(4) assms(5) assms(6))
  moreover have "sample_at i b1 = sample_at i b2"
    by (simp add: b1(2) b2(2) assms(4) assms(5) assms(6))
  ultimately show ?thesis
    unfolding a1(1) a2(1) b1(1) b2(1)
    by (simp add: sample_at_def)
qed

theorem particle_independence_witness:
  "(\<exists>o1 o2. launch_linear 2 [0, 3 / 2] [0, 0] [1, 2] box ramp_fields (zero_outputs 2) = Inr o1
       \<and> launch_linear 2 [5, 3 / 2] [1, 0] [3, 2] box ramp_fields (zero_outputs 2) = Inr o2
       \<and> Ex_out o1 ! 1 = Ex_out o2 ! 1 \<and> Ey_out o1 ! 1 = Ey_out o2 ! 1
       \<and> Ez_out o1 ! 1 = Ez_out o2 ! 1 \<and> Bx_out o1 ! 1 = Bx_out o2 ! 1
       \<and> By_out o1 ! 1 = By_out o2 ! 1 \<and> Bz_out o1 ! 1 = Bz_out o2 ! 1)
   \<and> (\<exists>o1 o2. launch_cubic 2 [0, 3 / 2] [0, 0] [1, 2] box ramp_fields (zero_outputs 2) = Inr o1
       \<and> launch_cubic 2 [5, 3 / 2] [1, 0] [3, 2] box ramp_fields (zero_outputs 2) = Inr o2
       \<and> Ex_out o1 ! 1 = Ex_out o2 ! 1 \<and> Ey_out o1 ! 1 = Ey_out o2 ! 1
       \<and> Ez_out o1 ! 1 = Ez_out o2 ! 1 \<and> Bx_out o1 ! 1 = Bx_out o2 ! 1
       \<and> By_out o1 ! 1 = By_out o2 ! 1 \<and> Bz_out o1 ! 1 = Bz_out o2 ! 1)"
proof -
  have sized: "well_sized 2 (zero_outputs 2)"
    by (simp add: well_sized_def zero_outputs_def)
  have idx: "(1::nat) < 2" "1 < length [0, 3 / 2 :: real]" "1 < length [5, 3 / 2 :: real]"
    by simp_all
  have same: "[0, 3 / 2 :: real] ! 1 = [5, 3 / 2] ! 1" "[0, 0 :: real] ! 1 = [1, 0] ! 1"
    "[1, 2 :: real] ! 1 = [3, 2] ! 1"
    by simp_all
  from particle_independence [OF idx(1) idx(2) idx(3) same sized idx(1) sized idx(1),
      where geom = box and flds = ramp_fields]
  show ?thesis .
qed

section \<open>Particles beyond the outer radial edge\<close>

text \<open>
  C2, as the kernels have it. Let \<open>Nr \<ge> 1\<close> and take two particles with the same cosine and
  sine and the same \<open>z\<close>. Linear kernel: if the radial cell coordinate of the first is at
  least \<open>Nr - 1\<close> and that of the second is \<open>Nr - 1\<close> exactly, both get the same six
  outputs. Cubic kernel: if the radial cell coordinates of both are at least \<open>Nr\<close> (so that
  all four radial stencil points are clamped to \<open>Nr - 1\<close>), both get the same six outputs.
\<close>

theorem radial_clamp_gather:
  assumes "1 \<le> Nr geom" and "i < length x" and "i < length x'"
    and "cylindrical_conversion (x ! i) (y ! i) = Inr (rj, c, s)"
    and "cylindrical_conversion (x' ! i) (y' ! i) = Inr (rj', c, s)"
    and "z ! i = z' ! i"
  shows "(of_int (Nr geom - 1) \<le> r_cell geom rj \<and> r_cell geom rj' = of_int (Nr geom - 1) \<longrightarrow>
           (\<exists>out'. gather_field_gpu_linear i x y z geom flds out = Inr out'
              \<and> gather_field_gpu_linear i x' y' z' geom flds out = Inr out'))
       \<and> (of_int (Nr geom) \<le> r_cell geom rj \<and> of_int (Nr geom) \<le> r_cell geom rj' \<longrightarrow>
           (\<exists>out'. gather_field_gpu_cubic i x y z geom flds out = Inr out'
              \<and> gather_field_gpu_cubic i x' y' z' geom flds out = Inr out'))"
proof -
  note p = polar_of_conversion [OF assms(4)]
  note p' = polar_of_conversion [OF assms(5)]
  have lin: "\<exists>out'. gather_field_gpu_linear i x y z geom flds out = Inr out'
              \<and> gather_field_gpu_linear i x' y' z' geom flds out = Inr out'"
    if "of_int (Nr geom - 1) \<le> r_cell geom rj" and "r_cell geom rj' = of_int (Nr geom - 1)"
  proof -
    from that(2) have e: "of_int (Nr geom - 1) \<le> r_cell geom rj'"
      by simp
    show ?thesis
      unfolding gather_field_gpu_linear_eq [OF assms(2) p]
        gather_field_gpu_linear_eq [OF assms(3) p']
      by (simp add: assms(6) [symmetric] linear_edge_same [OF assms(1) that(1) e])
  qed
  have cub: "\<exists>out'. gather_field_gpu_cubic i x y z geom flds out = Inr out'
              \<and> gather_field_gpu_cubic i x' y' z' geom flds out = Inr out'"
    if "of_int (Nr geom) \<le> r_cell geom rj" and "of_int (Nr geom) \<le> r_cell geom rj'"
    unfolding gather_field_gpu_cubic_eq [OF assms(2) p]
      gather_field_gpu_cubic_eq [OF assms(3) p']
    by (simp add: assms(6) [symmetric] cubic_edge_same [OF assms(1) that])
  from lin cub show ?thesis
    by blast
qed

theorem radial_clamp_gather_witness:
  "1 \<le> Nr box
   \<and> cylindrical_conversion ([11 / 2] ! 0) ([0] ! 0) = Inr (11 / 2, 1, 0)
   \<and> cylindrical_conversion ([7 / 2] ! 0) ([0] ! 0) = Inr (7 / 2, 1, 0)
   \<and> cylindrical_conversion ([9 / 2] ! 0) ([0] ! 0) = Inr (9 / 2, 1, 0)
   \<and> of_int (Nr box - 1) \<le> r_cell box (11 / 2) \<and> r_cell box (7 / 2) = of_int (Nr box - 1)
   \<and> of_int (Nr box) \<le> r_cell box (11 / 2) \<and> of_int (Nr box) \<le> r_cell box (9 / 2)
   \<and> (\<exists>out'. gather_field_gpu_linear 0 [11 / 2] [0] [2] box ramp_fields out0 = Inr out'
          \<and> gather_field_gpu_linear 0 [7 / 2] [0] [2] box ramp_fields out0 = Inr out')
   \<and> (\<exists>out'. gather_field_gpu_cubic 0 [11 / 2] [0] [2] box ramp_fields out0 = Inr out'
          \<and> gather_field_gpu_cubic 0 [9 / 2] [0] [2] box ramp_fields out0 = Inr out')"
proof -
  have nr: "1 \<le> Nr box"
    by (simp add: box_sel)
  have len: "0 < length [11 / 2 :: real]" "0 < length [7 / 2 :: real]" "0 < length [9 / 2 :: real]"
    by simp_all
  have conv: "cylindrical_conversion ([11 / 2] ! 0) ([0] ! 0) = Inr (11 / 2, 1, 0)"
    "cylindrical_conversion ([7 / 2] ! 0) ([0] ! 0) = Inr (7 / 2, 1, 0)"
    "cylindrical_conversion ([9 / 2] ! 0) ([0] ! 0) = Inr (9 / 2, 1, 0)"
    by (simp_all add: cylindrical_conversion_eq polar_on_x)
  have rc: "of_int (Nr box - 1) \<le> r_cell box (11 / 2) \<and> r_cell box (7 / 2) = of_int (Nr box - 1)"
    "of_int (Nr box) \<le> r_cell box (11 / 2) \<and> of_int (Nr box) \<le> r_cell box (9 / 2)"
    by (simp_all add: r_cell_def box_sel)
  have z: "[2 :: real] ! 0 = [2] ! 0"
    by simp
  from radial_clamp_gather [OF nr len(1) len(2) conv(1) conv(2) z,
      where flds = ramp_fields and out = out0] rc(1)
  have lin: "\<exists>out'. gather_field_gpu_linear 0 [11 / 2] [0] [2] box ramp_fields out0 = Inr out'
          \<and> gather_field_gpu_linear 0 [7 / 2] [0] [2] box ramp_fields out0 = Inr out'"
    by blast
  from radial_clamp_gather [OF nr len(1) len(3) conv(1) conv(3) z,
      where flds = ramp_fields and out = out0] rc(2)
  have cub: "\<exists>out'. gather_field_gpu_cubic 0 [11 / 2] [0] [2] box ramp_fields out0 = Inr out'
          \<and> gather_field_gpu_cubic 0 [9 / 2] [0] [2] box ramp_fields out0 = Inr out'"
    by blast
  from nr conv rc lin cub show ?thesis
    by blast
qed

text \<open>
  C2, as stated, fails for the cubic kernel: on a grid of four radial cells whose radial
  field of mode 0 has the value \<open>ir\<close> at the radial index \<open>ir\<close>, a particle two cells
  beyond the last one gets \<open>Ex = 3\<close>, the value of the last cell, and a particle at the
  last cell gets \<open>Ex = 17 / 6\<close>, since its first stencil point, of weight \<open>1 / 6\<close>, is the
  cell before the last one.
\<close>

theorem radial_clamp_cubic_differs:
  "of_int (Nr box - 1) \<le> r_cell box (11 / 2) \<and> r_cell box (7 / 2) = of_int (Nr box - 1)
   \<and> cylindrical_conversion (11 / 2) 0 = Inr (11 / 2, 1, 0)
   \<and> cylindrical_conversion (7 / 2) 0 = Inr (7 / 2, 1, 0)
   \<and> gather_field_gpu_cubic 0 [11 / 2] [0] [2] box ramp_fields out0
       = Inr \<lparr> Ex_out = [3], Ey_out = [0], Ez_out = [0],
               Bx_out = [0], By_out = [3], Bz_out = [0] \<rparr>
   \<and> gather_field_gpu_cubic 0 [7 / 2] [0] [2] box ramp_fields out0
       = Inr \<lparr> Ex_out = [17 / 6], Ey_out = [0], Ez_out = [0],
               Bx_out = [0], By_out = [17 / 6], Bz_out = [0] \<rparr>"
proof -
  have rc: "of_int (Nr box - 1) \<le> r_cell box (11 / 2) \<and> r_cell box (7 / 2) = of_int (Nr box - 1)"
    by (simp add: r_cell_def box_sel)
  have conv: "cylindrical_conversion (11 / 2) 0 = Inr (11 / 2, 1, 0)"
    "cylindrical_conversion (7 / 2) 0 = Inr (7 / 2, 1, 0)"
    by (simp_all add: cylindrical_conversion_eq polar_on_x)
  have p: "polar ([11 / 2] ! 0) ([0] ! 0) = (11 / 2, 1, 0)"
    "polar ([7 / 2] ! 0) ([0] ! 0) = (7 / 2, 1, 0)"
    by (simp_all add: polar_on_x)
  have len: "0 < length [11 / 2 :: real]" "0 < length [7 / 2 :: real]"
    by simp_all
  have far: "gather_field_gpu_cubic 0 [11 / 2] [0] [2] box ramp_fields out0
       = Inr \<lparr> Ex_out = [3], Ey_out = [0], Ez_out = [0],
               Bx_out = [0], By_out = [3], Bz_out = [0] \<rparr>"
    unfolding gather_field_gpu_cubic_eq [OF len(1) p(1)]
    by (simp add: cubic_stencil_beyond cubic_gather_modes_def add_cubic_gather_for_mode_def
        ramp_fields_grids cubic_sum_zero_grid cubic_sum_radial_ramp exptheta_m0_def
        write_sample_def out0_def)
  have edge: "gather_field_gpu_cubic 0 [7 / 2] [0] [2] box ramp_fields out0
       = Inr \<lparr> Ex_out = [17 / 6], Ey_out = [0], Ez_out = [0],
               Bx_out = [0], By_out = [17 / 6], Bz_out = [0] \<rparr>"
    unfolding gather_field_gpu_cubic_eq [OF len(2) p(2)]
    by (simp add: cubic_stencil_last_cell cubic_gather_modes_def add_cubic_gather_for_mode_def
        ramp_fields_grids cubic_sum_zero_grid cubic_sum_radial_ramp exptheta_m0_def
        write_sample_def out0_def)
  from rc conv far edge show ?thesis
    by blast
qed

section \<open>Axial periodicity\<close>

text \<open>
  C7, as the kernels have it. Let \<open>invdz > 0\<close>, \<open>dz = 1 / invdz\<close> and \<open>\<epsilon> > 0\<close>, and take two
  particles with the same \<open>x\<close> and \<open>y\<close>, one at \<open>z = zmin - \<epsilon>\<close> and one at
  \<open>z = zmin + (Nz * dz - \<epsilon>)\<close>. Their axial cell coordinates differ by \<open>Nz\<close> exactly and
  their axial weights coincide, in both kernels. If \<open>\<epsilon> \<le> (Nz - 1/2) * dz\<close>, the wrapped
  axial indices of the linear kernel coincide and the linear kernel writes the same six
  outputs for both; if \<open>\<epsilon> \<le> (Nz - 3/2) * dz\<close>, the same holds of the cubic kernel.
\<close>

theorem axial_periodicity:
  assumes "0 < invdz geom" and "dz = 1 / invdz geom" and "0 < eps"
    and "i < length x" and "i < length x'"
    and "x ! i = x' ! i" and "y ! i = y' ! i"
    and "z ! i = zmin geom - eps"
    and "z' ! i = zmin geom + (of_int (Nz geom) * dz - eps)"
  shows "z_cell geom (z' ! i) = z_cell geom (z ! i) + of_int (Nz geom)
       \<and> Sz_lower (linear_stencil_of geom rj (z' ! i)) = Sz_lower (linear_stencil_of geom rj (z ! i))
       \<and> Sz_upper (linear_stencil_of geom rj (z' ! i)) = Sz_upper (linear_stencil_of geom rj (z ! i))
       \<and> snd (snd (snd (cubic_stencil_of geom rj (z' ! i))))
           = snd (snd (snd (cubic_stencil_of geom rj (z ! i))))
       \<and> (eps \<le> (of_int (Nz geom) - 1 / 2) * dz \<longrightarrow>
            iz_lower (linear_stencil_of geom rj (z' ! i)) = iz_lower (linear_stencil_of geom rj (z ! i))
            \<and> iz_upper (linear_stencil_of geom rj (z' ! i)) = iz_upper (linear_stencil_of geom rj (z ! i))
            \<and> (\<exists>out'. gather_field_gpu_linear i x y z geom flds out = Inr out'
                  \<and> gather_field_gpu_linear i x' y' z' geom flds out = Inr out'))
       \<and> (eps \<le> (of_int (Nz geom) - 3 / 2) * dz \<longrightarrow>
            fst (snd (cubic_stencil_of geom rj (z' ! i))) = fst (snd (cubic_stencil_of geom rj (z ! i)))
            \<and> (\<exists>out'. gather_field_gpu_cubic i x y z geom flds out = Inr out'
                  \<and> gather_field_gpu_cubic i x' y' z' geom flds out = Inr out'))"
proof -
  have period: "z_cell geom (z' ! i) = z_cell geom (z ! i) + of_int (Nz geom)"
    unfolding assms(8) assms(9) by (rule z_cell_period [OF assms(1) assms(2)])
  have below: "\<lfloor>z_cell geom (z ! i)\<rfloor> \<le> - 1"
    unfolding assms(8) by (rule z_cell_below(1) [OF assms(1) assms(2) assms(3)])
  note lw = linear_stencil_weights_period [OF period]
  have cw: "snd (snd (snd (cubic_stencil_of geom rj (z' ! i))))
           = snd (snd (snd (cubic_stencil_of geom rj (z ! i))))"
    by (simp only: cubic_stencil_of_eq snd_conv period cubic_weights_shift)
  obtain r c s where p: "polar (x ! i) (y ! i) = (r, c, s)"
    by (cases "polar (x ! i) (y ! i)")
  then have p': "polar (x' ! i) (y' ! i) = (r, c, s)"
    by (simp only: assms(6) assms(7))
  have lin: "iz_lower (linear_stencil_of geom rj (z' ! i)) = iz_lower (linear_stencil_of geom rj (z ! i))
            \<and> iz_upper (linear_stencil_of geom rj (z' ! i)) = iz_upper (linear_stencil_of geom rj (z ! i))
            \<and> (\<exists>out'. gather_field_gpu_linear i x y z geom flds out = Inr out'
                  \<and> gather_field_gpu_linear i x' y' z' geom flds out = Inr out')"
    if "eps \<le> (of_int (Nz geom) - 1 / 2) * dz"
  proof -
    from z_cell_below(2) [OF assms(1) assms(2) assms(3) that]
    have "- of_int (Nz geom) \<le> z_cell geom (z ! i)"
      unfolding assms(8) by simp
    then have "of_int (- Nz geom) \<le> z_cell geom (z ! i)"
      by simp
    then have lo: "- Nz geom \<le> \<lfloor>z_cell geom (z ! i)\<rfloor>"
      by (simp only: le_floor_iff)
    note ix = linear_stencil_period [OF period refl refl lo below]
    have "linear_gather_modes c s grids (linear_stencil_of geom r (z ! i))
            = linear_gather_modes c s grids (linear_stencil_of geom r (z' ! i))" for grids
      by (rule linear_gather_modes_cong)
        (simp_all only: ix [of r] linear_stencil_weights_period [OF period, of r]
          linear_stencil_of_sel(1,2,5,6))
    then have "\<exists>out'. gather_field_gpu_linear i x y z geom flds out = Inr out'
                  \<and> gather_field_gpu_linear i x' y' z' geom flds out = Inr out'"
      unfolding gather_field_gpu_linear_eq [OF assms(4) p]
        gather_field_gpu_linear_eq [OF assms(5) p']
      by simp
    with ix [of rj] show ?thesis
      by simp
  qed
  have cub: "fst (snd (cubic_stencil_of geom rj (z' ! i))) = fst (snd (cubic_stencil_of geom rj (z ! i)))
            \<and> (\<exists>out'. gather_field_gpu_cubic i x y z geom flds out = Inr out'
                  \<and> gather_field_gpu_cubic i x' y' z' geom flds out = Inr out')"
    if "eps \<le> (of_int (Nz geom) - 3 / 2) * dz"
  proof -
    from z_cell_below(2) [OF assms(1) assms(2) assms(3) that]
    have "1 - of_int (Nz geom) \<le> z_cell geom (z ! i)"
      unfolding assms(8) by simp
    then have "of_int (1 - Nz geom) \<le> z_cell geom (z ! i)"
      by simp
    then have lo: "1 - Nz geom \<le> \<lfloor>z_cell geom (z ! i)\<rfloor>"
      by (simp only: le_floor_iff)
    note st = cubic_stencil_period [OF period lo below]
    have "\<exists>out'. gather_field_gpu_cubic i x y z geom flds out = Inr out'
                  \<and> gather_field_gpu_cubic i x' y' z' geom flds out = Inr out'"
      unfolding gather_field_gpu_cubic_eq [OF assms(4) p]
        gather_field_gpu_cubic_eq [OF assms(5) p'] st
      by simp
    with st [of rj] show ?thesis
      by simp
  qed
  from period lw [of rj] cw lin cub show ?thesis
    by blast
qed

theorem axial_periodicity_witness:
  "0 < invdz box \<and> (1::real) = 1 / invdz box \<and> (0::real) < 1
   \<and> (1::real) \<le> (of_int (Nz box) - 1 / 2) * 1 \<and> (1::real) \<le> (of_int (Nz box) - 3 / 2) * 1
   \<and> [- 1 :: real] ! 0 = zmin box - 1 \<and> [3 :: real] ! 0 = zmin box + (of_int (Nz box) * 1 - 1)
   \<and> z_cell box ([3] ! 0) = z_cell box ([- 1] ! 0) + of_int (Nz box)
   \<and> iz_lower (linear_stencil_of box (3 / 2) ([3] ! 0))
       = iz_lower (linear_stencil_of box (3 / 2) ([- 1] ! 0))
   \<and> iz_upper (linear_stencil_of box (3 / 2) ([3] ! 0))
       = iz_upper (linear_stencil_of box (3 / 2) ([- 1] ! 0))
   \<and> (\<exists>out'. gather_field_gpu_linear 0 [3 / 2] [0] [- 1] box ramp_fields out0 = Inr out'
         \<and> gather_field_gpu_linear 0 [3 / 2] [0] [3] box ramp_fields out0 = Inr out')
   \<and> fst (snd (cubic_stencil_of box (3 / 2) ([3] ! 0)))
       = fst (snd (cubic_stencil_of box (3 / 2) ([- 1] ! 0)))
   \<and> (\<exists>out'. gather_field_gpu_cubic 0 [3 / 2] [0] [- 1] box ramp_fields out0 = Inr out'
         \<and> gather_field_gpu_cubic 0 [3 / 2] [0] [3] box ramp_fields out0 = Inr out')"
proof -
  have g: "0 < invdz box" "(1::real) = 1 / invdz box" "(0::real) < 1"
    by (simp_all add: box_sel)
  have e: "(1::real) \<le> (of_int (Nz box) - 1 / 2) * 1" "(1::real) \<le> (of_int (Nz box) - 3 / 2) * 1"
    by (simp_all add: box_sel)
  have len: "0 < length [3 / 2 :: real]"
    by simp
  have pos: "[- 1 :: real] ! 0 = zmin box - 1" "[3 :: real] ! 0 = zmin box + (of_int (Nz box) * 1 - 1)"
    by (simp_all add: box_sel)
  note t = axial_periodicity [OF g len len refl refl pos,
      where rj = "3 / 2" and flds = ramp_fields and out = out0 and y = "[0]"]
  from t e g pos show ?thesis
    by blast
qed

text \<open>
  C7, as stated (for every \<open>0 < \<epsilon> < Nz * dz\<close>), fails in its statement on the indices: on
  a grid of four unit cells, \<open>\<epsilon> = 15/4\<close> gives the lower axial index \<open>- 1\<close> at
  \<open>zmin - \<epsilon>\<close> and 3 at \<open>zmin + (Nz * dz - \<epsilon>)\<close> in the linear kernel, and \<open>\<epsilon> = 3\<close> gives
  the first axial index \<open>- 1\<close> and 3 in the cubic kernel: the wrap adds \<open>Nz\<close> once.
\<close>

theorem axial_indices_differ:
  "0 < invdz box \<and> (1::real) = 1 / invdz box
   \<and> (0::real) < 15 / 4 \<and> (15 / 4 :: real) < of_int (Nz box) * 1
   \<and> iz_lower (linear_stencil_of box 1 (zmin box - 15 / 4)) = - 1
   \<and> iz_lower (linear_stencil_of box 1 (zmin box + (of_int (Nz box) * 1 - 15 / 4))) = 3
   \<and> (0::real) < 3 \<and> (3::real) < of_int (Nz box) * 1
   \<and> fst (snd (cubic_stencil_of box 1 (zmin box - 3))) ! 0 = - 1
   \<and> fst (snd (cubic_stencil_of box 1 (zmin box + (of_int (Nz box) * 1 - 3)))) ! 0 = 3"
proof -
  have g: "0 < invdz box \<and> (1::real) = 1 / invdz box
      \<and> (0::real) < 15 / 4 \<and> (15 / 4 :: real) < of_int (Nz box) * 1
      \<and> (0::real) < 3 \<and> (3::real) < of_int (Nz box) * 1"
    by (simp add: box_sel)
  have zc: "z_cell box (zmin box - 15 / 4) = - 17 / 4"
    "z_cell box (zmin box + (of_int (Nz box) * 1 - 15 / 4)) = - 1 / 4"
    "z_cell box (zmin box - 3) = - 7 / 2"
    "z_cell box (zmin box + (of_int (Nz box) * 1 - 3)) = 1 / 2"
    by (simp_all add: z_cell_def box_sel)
  have a: "iz_lower (linear_stencil_of box 1 (zmin box - 15 / 4)) = - 1"
    "iz_lower (linear_stencil_of box 1 (zmin box + (of_int (Nz box) * 1 - 15 / 4))) = 3"
    unfolding linear_stencil_of_sel zc by (simp_all add: wrap_once_def box_sel)
  have b: "fst (snd (cubic_stencil_of box 1 (zmin box - 3))) ! 0 = - 1"
    "fst (snd (cubic_stencil_of box 1 (zmin box + (of_int (Nz box) * 1 - 3)))) ! 0 = 3"
    unfolding cubic_stencil_of_nth [of 0, simplified] zc by (simp_all add: wrap_once_def box_sel)
  from g a b show ?thesis
    by blast
qed

end
